theory Spec2Isabelle
  imports Main "HOL-Library.Word"
begin

section \<open>JavaScript strings\<close>

text \<open>
  A JavaScript string is a sequence of UTF-16 code units: \<open>length\<close>, \<open>slice\<close>,
  \<open>startsWith\<close> and \<open>trim\<close> all count and compare code units. The literals of
  \<^verbatim>\<open>worker.js\<close> are written here as code units; \<open>asc\<close> embeds an ASCII literal.
\<close>

type_synonym char16 = "16 word"
type_synonym jsstring = "char16 list"

definition asc :: "string \<Rightarrow> jsstring" where
  "asc s = map of_char s"

text \<open>\<^verbatim>\<open>s.startsWith(p)\<close>\<close>

fun startsWith :: "jsstring \<Rightarrow> jsstring \<Rightarrow> bool" where
  "startsWith s [] = True"
| "startsWith [] (p # ps) = False"
| "startsWith (c # cs) (p # ps) = (c = p \<and> startsWith cs ps)"

text \<open>\<^verbatim>\<open>s.includes(p)\<close>\<close>

fun includes_str :: "jsstring \<Rightarrow> jsstring \<Rightarrow> bool" where
  "includes_str [] p = (p = [])"
| "includes_str (c # cs) p = (startsWith (c # cs) p \<or> includes_str cs p)"

text \<open>
  The code units that \<^verbatim>\<open>String.prototype.trim\<close> strips: ECMAScript WhiteSpace
  (TAB, VT, FF, SP, NBSP, ZWNBSP and the Unicode space separators) and LineTerminator
  (LF, CR, LS, PS).
\<close>

definition isWhiteSpace :: "char16 \<Rightarrow> bool" where
  "isWhiteSpace c \<longleftrightarrow>
     c = 0x0009 \<or> c = 0x000A \<or> c = 0x000B \<or> c = 0x000C \<or> c = 0x000D \<or> c = 0x0020 \<or>
     c = 0x00A0 \<or> c = 0x1680 \<or> (0x2000 \<le> c \<and> c \<le> 0x200A) \<or> c = 0x2028 \<or> c = 0x2029 \<or>
     c = 0x202F \<or> c = 0x205F \<or> c = 0x3000 \<or> c = 0xFEFF"

definition trim :: "jsstring \<Rightarrow> jsstring" where
  "trim s = rev (dropWhile isWhiteSpace (rev (dropWhile isWhiteSpace s)))"

text \<open>\<^verbatim>\<open>s.slice(0, n)\<close> for a non-negative literal \<open>n\<close>\<close>

definition slice0 :: "nat \<Rightarrow> jsstring \<Rightarrow> jsstring" where
  "slice0 n s = take n s"

text \<open>\<^verbatim>\<open>s.split(c)[0]\<close> for a one-unit separator: the part before its first occurrence.\<close>

definition split_first :: "char16 \<Rightarrow> jsstring \<Rightarrow> jsstring" where
  "split_first c s = takeWhile (\<lambda>d. d \<noteq> c) s"

text \<open>Decimal rendering of the numbers the program interpolates into its messages.\<close>

definition digit :: "nat \<Rightarrow> char16" where
  "digit d = of_nat (48 + d)"

function show_nat :: "nat \<Rightarrow> jsstring" where
  "show_nat n = (if n < 10 then [digit n] else show_nat (n div 10) @ [digit (n mod 10)])"
  by pat_completeness auto
termination
  by (relation "measure id") auto

declare show_nat.simps [simp del]

definition show_int :: "int \<Rightarrow> jsstring" where
  "show_int i = (if i < 0 then 0x002D # show_nat (nat (- i)) else show_nat (nat i))"

section \<open>Values, errors and the environment of a run\<close>

text \<open>
  What \<^verbatim>\<open>JSON.parse\<close> returns. Numbers are the integers of magnitude below
  \<open>10\<^sup>2\<^sup>1\<close>, which JavaScript holds as such where the program uses them (array
  lengths, counts) and prints in decimal; fractions and larger numbers are not covered.
  An object is the list of its own members, looked up by key.
\<close>

datatype json =
    JNull
  | JBool bool
  | JNum int
  | JStr jsstring
  | JArr "json list"
  | JObj "(jsstring \<times> json) list"

text \<open>\<^verbatim>\<open>!!v\<close>: only \<open>null\<close>, \<open>false\<close>, \<open>0\<close> and \<open>""\<close> are falsy.\<close>

fun truthy :: "json \<Rightarrow> bool" where
  "truthy JNull = False"
| "truthy (JBool b) = b"
| "truthy (JNum n) = (n \<noteq> 0)"
| "truthy (JStr s) = (s \<noteq> [])"
| "truthy (JArr xs) = True"
| "truthy (JObj kvs) = True"

text \<open>
  \<^verbatim>\<open>v.k\<close> for the member names the program reads (\<open>email\<close>, \<open>password\<close>,
  \<open>message\<close>), which no prototype defines: the own member of an object, \<open>undefined\<close>
  (\<open>None\<close>) otherwise. The value \<open>v\<close> is not \<open>null\<close>.
\<close>

fun get_field :: "json \<Rightarrow> jsstring \<Rightarrow> json option" where
  "get_field (JObj kvs) k = map_of kvs k"
| "get_field v k = None"

text \<open>An \<open>Error\<close> object; the program reads nothing but its \<open>message\<close>.\<close>

datatype js_error = Error (message: jsstring)

text \<open>The two ways a member access of line 148 makes the runtime throw a \<open>TypeError\<close>.\<close>

datatype fault = ReadOfNullish jsstring | NotCallable jsstring

datatype http_method = GET | POST

record request =
  rq_url :: jsstring
  rq_method :: http_method
  rq_headers :: "(jsstring \<times> jsstring) list"
  rq_body :: "jsstring option"
  rq_signal :: bool

text \<open>
  A response as far as the program inspects it: the status, the two headers it asks for
  (\<open>None\<close> when \<^verbatim>\<open>headers.get\<close> returns \<open>null\<close>) and the outcome of reading the
  body with \<^verbatim>\<open>text()\<close>.
\<close>

record response =
  rs_status :: nat
  rs_set_cookie :: "jsstring option"
  rs_content_type :: "jsstring option"
  rs_text :: "js_error + jsstring"

definition ok :: "response \<Rightarrow> bool" where
  "ok r \<longleftrightarrow> 200 \<le> rs_status r \<and> rs_status r \<le> 299"

datatype level = Log | Info | Warn | Err

text \<open>
  The effects of a run, in the order they happen: requests sent with \<^verbatim>\<open>fetch\<close>,
  pauses (\<^verbatim>\<open>setTimeout\<close>, in milliseconds) and console output.
\<close>

datatype event = Fetch request | Delay nat | Console level jsstring

text \<open>
  Everything a run takes from outside the repository. \<open>w_fetch\<close> is the settled outcome
  of awaiting a request, given the effects so far: a response, or the rejection. The
  login request is awaited through \<^verbatim>\<open>Promise.race\<close> against a 30 s timer that aborts
  it; its oracle answer is the settled outcome of that race. The other fields are the
  runtime's own functions: the clock rendered for Asia/Shanghai, \<^verbatim>\<open>JSON.parse\<close>
  (\<open>Inl\<close> the \<open>SyntaxError\<close>), \<^verbatim>\<open>JSON.stringify\<close>, the conversion of arrays and
  objects to a string and of strings, arrays and objects to a number (\<open>None\<close> is
  \<open>NaN\<close>), which may throw, and the \<open>TypeError\<close> thrown at a faulty member access.
\<close>

record world =
  w_fetch :: "event list \<Rightarrow> request \<Rightarrow> js_error + response"
  w_now :: jsstring
  w_json_parse :: "jsstring \<Rightarrow> js_error + json"
  w_stringify :: "json \<Rightarrow> jsstring"
  w_to_string :: "json \<Rightarrow> js_error + jsstring"
  w_to_number :: "json \<Rightarrow> js_error + int option"
  w_type_error :: "fault \<Rightarrow> js_error"

text \<open>The configuration of the worker; \<open>None\<close> is an unset variable.\<close>

record env =
  TG_BOT_TOKEN :: "jsstring option"
  TG_CHAT_ID :: "jsstring option"
  KOYEB_ACCOUNTS :: "jsstring option"

text \<open>
  Template-literal conversion \<^verbatim>\<open>`${v}`\<close> of a parsed value; a number is printed in
  decimal, as JavaScript prints the integers of the range above.
\<close>

definition to_string :: "world \<Rightarrow> json \<Rightarrow> js_error + jsstring" where
  "to_string w v =
     (case v of
        JNull \<Rightarrow> Inr (asc ''null'')
      | JBool b \<Rightarrow> Inr (if b then asc ''true'' else asc ''false'')
      | JNum n \<Rightarrow> Inr (show_int n)
      | JStr s \<Rightarrow> Inr s
      | _ \<Rightarrow> w_to_string w v)"

text \<open>Numeric conversion of a parsed value, as \<open><\<close> and \<open>-\<close> apply it.\<close>

definition to_number :: "world \<Rightarrow> json \<Rightarrow> js_error + int option" where
  "to_number w v =
     (case v of
        JNull \<Rightarrow> Inr (Some 0)
      | JBool b \<Rightarrow> Inr (Some (if b then 1 else 0))
      | JNum n \<Rightarrow> Inr (Some n)
      | _ \<Rightarrow> w_to_number w v)"

section \<open>The literals of worker.js\<close>

text \<open>line 6: warning that the Telegram settings are missing and the send is skipped\<close>
definition warn_tg_unset :: jsstring where
  "warn_tg_unset = [0x26A0, 0xFE0F] @ asc '' TG_BOT_TOKEN '' @ [0x6216] @ asc '' TG_CHAT_ID '' @ [0x672A, 0x8BBE, 0x7F6E, 0xFF0C, 0x8DF3, 0x8FC7] @ asc '' Telegram '' @ [0x6D88, 0x606F, 0x53D1, 0x9001]"

text \<open>line 32: the message was sent\<close>
definition info_tg_sent :: jsstring where
  "info_tg_sent = [0x2705] @ asc '' Telegram '' @ [0x6D88, 0x606F, 0x53D1, 0x9001, 0x6210, 0x529F]"

text \<open>line 35: Telegram answered 400, retrying as plain text\<close>
definition warn_tg_retry :: jsstring where
  "warn_tg_retry = [0x26A0, 0xFE0F] @ asc '' Telegram '' @ [0x8FD4, 0x56DE] @ asc '' 400'' @ [0xFF0C, 0x6539, 0x7528, 0x7EAF, 0x6587, 0x672C, 0x91CD, 0x8BD5] @ asc '': ''"

text \<open>line 37: the message was sent by the plain-text retry\<close>
definition info_tg_sent_plain :: jsstring where
  "info_tg_sent_plain = [0x2705] @ asc '' Telegram '' @ [0x6D88, 0x606F, 0x53D1, 0x9001, 0x6210, 0x529F, 0xFF08, 0x7EAF, 0x6587, 0x672C, 0x91CD, 0x8BD5, 0xFF09]"

text \<open>line 44: sending the message failed\<close>
definition err_tg_failed :: jsstring where
  "err_tg_failed = [0x274C] @ asc '' '' @ [0x53D1, 0x9001] @ asc '' Telegram '' @ [0x6D88, 0x606F, 0x5931, 0x8D25] @ asc '': ''"

text \<open>line 51: the email or the password is empty\<close>
definition msg_credentials_empty :: jsstring where
  "msg_credentials_empty = [0x90AE, 0x7BB1, 0x6216, 0x5BC6, 0x7801, 0x4E3A, 0x7A7A]"

text \<open>line 76: the preliminary request of the login page failed, the login goes on\<close>
definition warn_preflight_failed :: jsstring where
  "warn_preflight_failed = [0x26A0, 0xFE0F] @ asc '' '' @ [0x9884, 0x68C0, 0x767B, 0x5F55, 0x9875, 0x5931, 0x8D25, 0xFF0C, 0x7EE7, 0x7EED, 0x5C1D, 0x8BD5, 0x767B, 0x5F55] @ asc '': ''"

text \<open>line 98: "HTTP status code "\<close>
definition msg_http_status :: jsstring where
  "msg_http_status = asc ''HTTP'' @ [0x72B6, 0x6001, 0x7801] @ asc '' ''"

text \<open>line 110: a verification code or a cookie may be needed\<close>
definition msg_challenge :: jsstring where
  "msg_challenge = [0xFF08, 0x53EF, 0x80FD, 0x9700, 0x8981, 0x9A8C, 0x8BC1, 0x7801, 0x6216] @ asc '' Cookie'' @ [0xFF09]"

text \<open>line 115: the login succeeded\<close>
definition msg_login_ok :: jsstring where
  "msg_login_ok = [0x767B, 0x5F55, 0x6210, 0x529F]"

text \<open>line 124: KOYEB_ACCOUNTS is unset or malformed\<close>
definition msg_env_unset :: jsstring where
  "msg_env_unset = [0x274C] @ asc '' KOYEB_ACCOUNTS '' @ [0x73AF, 0x5883, 0x53D8, 0x91CF, 0x672A, 0x8BBE, 0x7F6E, 0x6216, 0x683C, 0x5F0F, 0x9519, 0x8BEF]"

text \<open>line 129: KOYEB_ACCOUNTS is not valid JSON\<close>
definition msg_env_invalid :: jsstring where
  "msg_env_invalid = [0x274C] @ asc '' KOYEB_ACCOUNTS JSON '' @ [0x683C, 0x5F0F, 0x65E0, 0x6548]"

text \<open>line 138: no valid account information was found\<close>
definition msg_no_accounts :: jsstring where
  "msg_no_accounts = [0x274C] @ asc '' '' @ [0x6CA1, 0x6709, 0x627E, 0x5230, 0x6709, 0x6548, 0x7684] @ asc '' Koyeb '' @ [0x8D26, 0x6237, 0x4FE1, 0x606F]"

text \<open>line 152: the account record is incomplete and skipped\<close>
definition warn_incomplete :: jsstring where
  "warn_incomplete = [0x26A0, 0xFE0F] @ asc '' '' @ [0x8D26, 0x6237, 0x4FE1, 0x606F, 0x4E0D, 0x5B8C, 0x6574, 0xFF0C, 0x8DF3, 0x8FC7] @ asc '': ''"

text \<open>line 157: "processing account "\<close>
definition info_processing :: jsstring where
  "info_processing = [0xD83D, 0xDD04] @ asc '' '' @ [0x5904, 0x7406, 0x8D26, 0x6237] @ asc '' ''"

text \<open>line 165: the line of a successful login, around the email\<close>
definition line_ok_prefix :: jsstring where
  "line_ok_prefix = [0x2705] @ asc '' '' @ [0x8D26, 0x6237] @ asc '': ''"

definition line_ok_suffix :: jsstring where
  "line_ok_suffix = asc '' '' @ [0x767B, 0x5F55, 0x6210, 0x529F, 0x000A]"

text \<open>line 167: the line of a failed login, around the email and the diagnostic\<close>
definition line_fail_prefix :: jsstring where
  "line_fail_prefix = [0x274C] @ asc '' '' @ [0x8D26, 0x6237] @ asc '': ''"

definition line_fail_mid :: jsstring where
  "line_fail_mid = asc '' '' @ [0x767B, 0x5F55, 0x5931, 0x8D25] @ asc '' - ''"

text \<open>line 170: the line of an exception; its middle part holds the marker "execution exception"\<close>
definition exception_marker :: jsstring where
  "exception_marker = [0x6267, 0x884C, 0x5F02, 0x5E38]"

definition line_exc_mid :: jsstring where
  "line_exc_mid = asc '' '' @ [0x767B, 0x5F55, 0x5931, 0x8D25] @ asc '' - '' @ exception_marker @ asc '': ''"

text \<open>line 175: there is no account result at all\<close>
definition msg_no_results :: jsstring where
  "msg_no_results = [0x274C] @ asc '' '' @ [0x6CA1, 0x6709, 0x4EFB, 0x4F55, 0x8D26, 0x6237, 0x5904, 0x7406, 0x7ED3, 0x679C]"

text \<open>line 178: the summary: "total: ", " accounts, succeeded: ", " | failed: "\<close>
definition summary_total :: jsstring where
  "summary_total = [0xD83D, 0xDCCA] @ asc '' '' @ [0x603B, 0x8BA1] @ asc '': ''"

definition summary_success :: jsstring where
  "summary_success = asc '' '' @ [0x4E2A, 0x8D26, 0x6237, 0x000A, 0x2705] @ asc '' '' @ [0x6210, 0x529F] @ asc '': ''"

definition summary_failed :: jsstring where
  "summary_failed = asc '' | '' @ [0x274C] @ asc '' '' @ [0x5931, 0x8D25] @ asc '': ''"

text \<open>line 179: the title of the report and the label of the check time\<close>
definition report_title :: jsstring where
  "report_title = [0xD83E, 0xDD16] @ asc '' *Koyeb '' @ [0x767B, 0x5F55, 0x72B6, 0x6001, 0x62A5, 0x544A] @ asc ''*'' @ [0x000A, 0x23F0] @ asc '' *'' @ [0x68C0, 0x67E5, 0x65F6, 0x95F4] @ asc '':* ''"

text \<open>line 185: the run failed\<close>
definition msg_run_failed :: jsstring where
  "msg_run_failed = [0x274C] @ asc '' '' @ [0x7A0B, 0x5E8F, 0x6267, 0x884C, 0x51FA, 0x9519] @ asc '': ''"

definition newline :: jsstring where
  "newline = [0x000A]"

section \<open>sendTGMessage\<close>

text \<open>
  Every function of the program is asynchronous; its model takes the effects so far and
  returns what the awaited call gives, \<open>Inl\<close> the error it throws, with the effects
  extended.
\<close>

text \<open>lines 12-18: the request of \<open>sendJson\<close>\<close>

definition json_post :: "world \<Rightarrow> jsstring \<Rightarrow> json \<Rightarrow> request" where
  "json_post w url payload =
     \<lparr>rq_url = url, rq_method = POST,
      rq_headers = [(asc ''Content-Type'', asc ''application/json'')],
      rq_body = Some (w_stringify w payload), rq_signal = False\<rparr>"

text \<open>line 23: the error thrown for a response that is not \<open>ok\<close>\<close>

definition http_error :: "response \<Rightarrow> jsstring \<Rightarrow> js_error" where
  "http_error response errorText =
     (let details = (if errorText \<noteq> [] then asc '' - '' @ slice0 200 errorText else [])
      in Error (asc ''HTTP '' @ show_nat (rs_status response) @ details))"

text \<open>lines 11-27\<close>

definition sendJson ::
  "world \<Rightarrow> jsstring \<Rightarrow> json \<Rightarrow> event list \<Rightarrow> (js_error + response) \<times> event list" where
  "sendJson w url payload tr =
     (let rq = json_post w url payload;
          tr1 = tr @ [Fetch rq]
      in case w_fetch w tr rq of
           Inl e \<Rightarrow> (Inl e, tr1)
         | Inr response \<Rightarrow>
             if \<not> ok response then
               (case rs_text response of
                  Inl e \<Rightarrow> (Inl e, tr1)
                | Inr errorText \<Rightarrow> (Inl (http_error response errorText), tr1))
             else (Inr response, tr1))"

text \<open>What \<open>sendTGMessage\<close> returns: \<open>true\<close> (line 42) or \<open>null\<close> (lines 7 and 45).\<close>

datatype send_result = ReturnsTrue | ReturnsNull

definition tg_url :: "jsstring \<Rightarrow> jsstring" where
  "tg_url botToken = asc ''https://api.telegram.org/bot'' @ botToken @ asc ''/sendMessage''"

definition markdown_payload :: "jsstring \<Rightarrow> jsstring \<Rightarrow> json" where
  "markdown_payload chatId msg =
     JObj [(asc ''chat_id'', JStr chatId), (asc ''text'', JStr msg),
           (asc ''parse_mode'', JStr (asc ''Markdown''))]"

definition plain_payload :: "jsstring \<Rightarrow> jsstring \<Rightarrow> json" where
  "plain_payload chatId msg = JObj [(asc ''chat_id'', JStr chatId), (asc ''text'', JStr msg)]"

text \<open>\<^verbatim>\<open>!v\<close> for a configuration variable: unset or empty.\<close>

definition unset :: "jsstring option \<Rightarrow> bool" where
  "unset v \<longleftrightarrow> (case v of None \<Rightarrow> True | Some s \<Rightarrow> s = [])"

text \<open>lines 1-47\<close>

definition sendTGMessage ::
  "world \<Rightarrow> jsstring \<Rightarrow> env \<Rightarrow> event list \<Rightarrow> (js_error + send_result) \<times> event list" where
  "sendTGMessage w msg env tr =
     (case (TG_BOT_TOKEN env, TG_CHAT_ID env) of
        (Some botToken, Some chatId) \<Rightarrow>
          if botToken = [] \<or> chatId = [] then (Inr ReturnsNull, tr @ [Console Warn warn_tg_unset])
          else
            (let url = tg_url botToken
             in case sendJson w url (markdown_payload chatId msg) tr of
                  (Inr _, tr1) \<Rightarrow> (Inr ReturnsTrue, tr1 @ [Console Info info_tg_sent])
                | (Inl error, tr1) \<Rightarrow>
                    if startsWith (message error) (asc ''HTTP 400'') then
                      (case sendJson w url (plain_payload chatId msg)
                              (tr1 @ [Console Warn (warn_tg_retry @ message error)]) of
                         (Inr _, tr2) \<Rightarrow>
                           (Inr ReturnsTrue, tr2 @ [Console Info info_tg_sent_plain])
                       | (Inl e, tr2) \<Rightarrow>
                           (Inr ReturnsNull, tr2 @ [Console Err (err_tg_failed @ message e)]))
                    else (Inr ReturnsNull, tr1 @ [Console Err (err_tg_failed @ message error)]))
      | _ \<Rightarrow> (Inr ReturnsNull, tr @ [Console Warn warn_tg_unset]))"

section \<open>loginKoyeb\<close>

definition loginPageUrl :: jsstring where
  "loginPageUrl = asc ''https://app.koyeb.com/auth/login''"

definition loginUrl :: jsstring where
  "loginUrl = asc ''https://app.koyeb.com/v1/account/login''"

text \<open>lines 56-62\<close>

definition headers :: "(jsstring \<times> jsstring) list" where
  "headers =
     [(asc ''Accept'', asc ''application/json, text/plain, */*''),
      (asc ''Content-Type'', asc ''application/json''),
      (asc ''Origin'', asc ''https://app.koyeb.com''),
      (asc ''Referer'', asc ''https://app.koyeb.com/auth/login''),
      (asc ''User-Agent'', asc ''Mozilla/5.0 (Windows NT 10.0; Win64; x64) AppleWebKit/537.36 (KHTML, like Gecko) Chrome/91.0.4472.124 Safari/537.36'')]"

definition preflight_request :: request where
  "preflight_request =
     \<lparr>rq_url = loginPageUrl, rq_method = GET, rq_headers = headers, rq_body = None,
      rq_signal = False\<rparr>"

text \<open>
  lines 66-77: the preliminary request of the login page; the result is
  \<open>preflightCookie\<close>. A rejection is logged and swallowed.
\<close>

definition preflight :: "world \<Rightarrow> event list \<Rightarrow> jsstring \<times> event list" where
  "preflight w tr =
     (let tr1 = tr @ [Fetch preflight_request]
      in case w_fetch w tr preflight_request of
           Inl preErr \<Rightarrow> ([], tr1 @ [Console Warn (warn_preflight_failed @ message preErr)])
         | Inr preload \<Rightarrow>
             if ok preload then
               (case rs_set_cookie preload of
                  None \<Rightarrow> ([], tr1)
                | Some setCookie \<Rightarrow>
                    if setCookie \<noteq> [] then (split_first 0x003B setCookie, tr1) else ([], tr1))
             else ([], tr1))"

text \<open>lines 63, 79 and 88-93: the login request\<close>

definition login_request :: "world \<Rightarrow> jsstring \<Rightarrow> json \<Rightarrow> jsstring \<Rightarrow> request" where
  "login_request w email password preflightCookie =
     (let data = JObj [(asc ''email'', JStr (trim email)), (asc ''password'', password)];
          postHeaders = (if preflightCookie \<noteq> [] then headers @ [(asc ''Cookie'', preflightCookie)]
                         else headers)
      in \<lparr>rq_url = loginUrl, rq_method = POST, rq_headers = postHeaders,
          rq_body = Some (w_stringify w data), rq_signal = True\<rparr>)"

text \<open>\<^verbatim>\<open>response.json()\<close>: the body read as text and parsed.\<close>

definition response_json :: "world \<Rightarrow> response \<Rightarrow> js_error + json" where
  "response_json w response =
     (case rs_text response of Inl e \<Rightarrow> Inl e | Inr t \<Rightarrow> w_json_parse w t)"

text \<open>line 100\<close>

definition json_typed :: "response \<Rightarrow> bool" where
  "json_typed response \<longleftrightarrow>
     (case rs_content_type response of
        None \<Rightarrow> False
      | Some contentType \<Rightarrow> contentType \<noteq> [] \<and> includes_str contentType (asc ''application/json''))"

text \<open>
  lines 100-108: what is appended to \<open>errorMsg\<close> after the status, \<open>Inl\<close> when the
  extraction throws (the \<open>catch\<close> of line 116 takes it).
\<close>

definition login_diagnostic :: "world \<Rightarrow> response \<Rightarrow> js_error + jsstring" where
  "login_diagnostic w response =
     (if json_typed response then
        (case response_json w response of
           Inl e \<Rightarrow> Inl e
         | Inr errorData \<Rightarrow>
             (case errorData of
                JNull \<Rightarrow> Inl (w_type_error w (ReadOfNullish (asc ''message'')))
              | _ \<Rightarrow>
                  (case get_field errorData (asc ''message'') of
                     None \<Rightarrow> Inr (asc '' - '' @ w_stringify w errorData)
                   | Some m \<Rightarrow>
                       if truthy m then
                         (case to_string w m of
                            Inl e \<Rightarrow> Inl e
                          | Inr s \<Rightarrow> Inr (asc '' - '' @ s))
                       else Inr (asc '' - '' @ w_stringify w errorData))))
      else
        (case rs_text response of
           Inl e \<Rightarrow> Inl e
         | Inr t \<Rightarrow>
             (let text = trim t
              in Inr (if text \<noteq> [] then asc '' - '' @ slice0 200 text else []))))"

text \<open>lines 98-112: the message of a response that is not \<open>ok\<close>\<close>

definition login_error_message :: "world \<Rightarrow> response \<Rightarrow> js_error + jsstring" where
  "login_error_message w response =
     (case login_diagnostic w response of
        Inl e \<Rightarrow> Inl e
      | Inr diagnostic \<Rightarrow>
          Inr (msg_http_status @ show_nat (rs_status response) @ diagnostic @
               (if rs_status response = 403 then msg_challenge else [])))"

text \<open>
  lines 49-119. \<open>email\<close> is a string, \<open>password\<close> whatever value the account record
  holds. The result is the pair \<open>[success, message]\<close>.
\<close>

definition loginKoyeb ::
  "world \<Rightarrow> jsstring \<Rightarrow> json \<Rightarrow> event list \<Rightarrow> (js_error + bool \<times> jsstring) \<times> event list" where
  "loginKoyeb w email password tr =
     (if email = [] \<or> \<not> truthy password then (Inr (False, msg_credentials_empty), tr)
      else
        (case preflight w tr of
           (preflightCookie, tr1) \<Rightarrow>
             (let rq = login_request w email password preflightCookie;
                  tr2 = tr1 @ [Fetch rq]
              in case w_fetch w tr1 rq of
                   Inl e \<Rightarrow> (Inr (False, message e), tr2)
                 | Inr response \<Rightarrow>
                     if \<not> ok response then
                       (case login_error_message w response of
                          Inl e \<Rightarrow> (Inr (False, message e), tr2)
                        | Inr errorMsg \<Rightarrow> (Inr (False, errorMsg), tr2))
                     else (Inr (True, msg_login_ok), tr2))))"

section \<open>validateEnvVariables and scheduledEventHandler\<close>

text \<open>lines 121-131\<close>

definition validateEnvVariables :: "world \<Rightarrow> env \<Rightarrow> js_error + json" where
  "validateEnvVariables w env =
     (if unset (KOYEB_ACCOUNTS env) then Inl (Error msg_env_unset)
      else
        (case KOYEB_ACCOUNTS env of
           None \<Rightarrow> Inl (Error msg_env_unset)
         | Some koyebAccountsEnv \<Rightarrow>
             (case w_json_parse w koyebAccountsEnv of
                Inl _ \<Rightarrow> Inl (Error msg_env_invalid)
              | Inr v \<Rightarrow> Inr v)))"

text \<open>
  \<^verbatim>\<open>KOYEB_ACCOUNTS.length\<close> and \<^verbatim>\<open>KOYEB_ACCOUNTS[index]\<close> on a parsed value that is
  not \<open>null\<close>: an array has its elements, a string its code units, an object the members
  named \<open>length\<close> and by the decimal index, anything else neither.
\<close>

fun config_length :: "json \<Rightarrow> json option" where
  "config_length (JArr xs) = Some (JNum (int (length xs)))"
| "config_length (JStr s) = Some (JNum (int (length s)))"
| "config_length (JObj kvs) = map_of kvs (asc ''length'')"
| "config_length v = None"

fun config_at :: "json \<Rightarrow> nat \<Rightarrow> json option" where
  "config_at (JArr xs) i = (if i < length xs then Some (xs ! i) else None)"
| "config_at (JStr s) i = (if i < length s then Some (JStr [s ! i]) else None)"
| "config_at (JObj kvs) i = map_of kvs (show_nat i)"
| "config_at v i = None"

text \<open>
  The number of rounds of the loop of line 146: the indices \<open>0, 1, ...\<close> for which
  \<^verbatim>\<open>index < totalAccounts\<close> holds. The comparison converts \<open>totalAccounts\<close> to a
  number, which throws at the first test if it throws at all; \<open>undefined\<close> and \<open>NaN\<close>
  compare false.
\<close>

definition loop_bound :: "world \<Rightarrow> json option \<Rightarrow> js_error + nat" where
  "loop_bound w totalAccounts =
     (case totalAccounts of
        None \<Rightarrow> Inr 0
      | Some v \<Rightarrow>
          (case to_number w v of
             Inl e \<Rightarrow> Inl e
           | Inr None \<Rightarrow> Inr 0
           | Inr (Some n) \<Rightarrow> Inr (nat n)))"

text \<open>The variables the loop updates.\<close>

record progress =
  results :: "jsstring list"
  successCount :: nat

text \<open>
  line 148: \<^verbatim>\<open>account.email?.trim()\<close>. Reading a member of \<open>undefined\<close> or
  \<open>null\<close> throws, and so does calling \<open>trim\<close> on a value that is not a string;
  \<open>?.\<close> only lets an absent or \<open>null\<close> email through as \<open>undefined\<close>.
\<close>

definition account_email :: "world \<Rightarrow> json option \<Rightarrow> js_error + jsstring option" where
  "account_email w account =
     (case account of
        None \<Rightarrow> Inl (w_type_error w (ReadOfNullish (asc ''email'')))
      | Some JNull \<Rightarrow> Inl (w_type_error w (ReadOfNullish (asc ''email'')))
      | Some a \<Rightarrow>
          (case get_field a (asc ''email'') of
             None \<Rightarrow> Inr None
           | Some JNull \<Rightarrow> Inr None
           | Some (JStr s) \<Rightarrow> Inr (Some (trim s))
           | Some _ \<Rightarrow> Inl (w_type_error w (NotCallable (asc ''trim'')))))"

text \<open>line 149, reached only when line 148 did not throw\<close>

definition account_password :: "json option \<Rightarrow> json option" where
  "account_password account =
     (case account of None \<Rightarrow> None | Some a \<Rightarrow> get_field a (asc ''password''))"

text \<open>\<^verbatim>\<open>`${email}`\<close> and \<^verbatim>\<open>`${totalAccounts}`\<close>\<close>

definition render_email :: "jsstring option \<Rightarrow> jsstring" where
  "render_email email = (case email of None \<Rightarrow> asc ''undefined'' | Some s \<Rightarrow> s)"

definition render_total :: "world \<Rightarrow> json option \<Rightarrow> js_error + jsstring" where
  "render_total w totalAccounts =
     (case totalAccounts of None \<Rightarrow> Inr (asc ''undefined'') | Some v \<Rightarrow> to_string w v)"

text \<open>The lines pushed at lines 165, 167 and 170.\<close>

definition line_success :: "jsstring \<Rightarrow> jsstring" where
  "line_success email = line_ok_prefix @ email @ line_ok_suffix"

definition line_failure :: "jsstring \<Rightarrow> jsstring \<Rightarrow> jsstring" where
  "line_failure email msg = line_fail_prefix @ email @ line_fail_mid @ msg @ newline"

definition line_exception :: "jsstring \<Rightarrow> js_error \<Rightarrow> jsstring" where
  "line_exception email e = line_fail_prefix @ email @ line_exc_mid @ message e @ newline"

text \<open>
  The login function is a parameter of the loop: \<open>scheduledEventHandler\<close> passes
  \<open>loginKoyeb\<close>, and the \<open>catch\<close> of line 169 is there for a login that throws.
\<close>

type_synonym login =
  "jsstring \<Rightarrow> json \<Rightarrow> event list \<Rightarrow> (js_error + bool \<times> jsstring) \<times> event list"

text \<open>lines 156-171: the \<open>try\<close> block of one complete account, with its \<open>catch\<close>\<close>

definition attempt ::
  "world \<Rightarrow> login \<Rightarrow> json option \<Rightarrow> nat \<Rightarrow> jsstring \<Rightarrow> json \<Rightarrow> progress \<Rightarrow> event list
     \<Rightarrow> progress \<times> event list" where
  "attempt w lg totalAccounts index email password st tr =
     (case render_total w totalAccounts of
        Inl e \<Rightarrow> (st\<lparr>results := results st @ [line_exception email e]\<rparr>, tr)
      | Inr totalText \<Rightarrow>
          (let tr1 = tr @ [Console Info (info_processing @ show_nat (index + 1) @ asc ''/'' @
                                         totalText @ asc '': '' @ email)];
               tr2 = (if index > 0 then tr1 @ [Delay 5000] else tr1)
           in case lg email password tr2 of
                (Inl e, tr3) \<Rightarrow> (st\<lparr>results := results st @ [line_exception email e]\<rparr>, tr3)
              | (Inr (success, msg), tr3) \<Rightarrow>
                  if success then
                    (st\<lparr>successCount := successCount st + 1,
                        results := results st @ [line_success email]\<rparr>, tr3)
                  else (st\<lparr>results := results st @ [line_failure email msg]\<rparr>, tr3)))"

text \<open>lines 147-171: one round of the loop; \<open>Inl\<close> when line 148 throws\<close>

definition process_account ::
  "world \<Rightarrow> login \<Rightarrow> json option \<Rightarrow> nat \<Rightarrow> json option \<Rightarrow> progress \<Rightarrow> event list
     \<Rightarrow> (js_error + progress) \<times> event list" where
  "process_account w lg totalAccounts index account st tr =
     (case account_email w account of
        Inl e \<Rightarrow> (Inl e, tr)
      | Inr email \<Rightarrow>
          (let skip = (Inr st, tr @ [Console Warn (warn_incomplete @ render_email email)])
           in case email of
                None \<Rightarrow> skip
              | Some em \<Rightarrow>
                  (case account_password account of
                     None \<Rightarrow> skip
                   | Some password \<Rightarrow>
                       if em = [] \<or> \<not> truthy password then skip
                       else
                         (case attempt w lg totalAccounts index em password st tr of
                            (st1, tr1) \<Rightarrow> (Inr st1, tr1)))))"

text \<open>lines 146-172: the loop, over the values \<open>KOYEB_ACCOUNTS[index]\<close> still to visit\<close>

fun process_accounts ::
  "world \<Rightarrow> login \<Rightarrow> json option \<Rightarrow> nat \<Rightarrow> json option list \<Rightarrow> progress \<Rightarrow> event list
     \<Rightarrow> (js_error + progress) \<times> event list" where
  "process_accounts w lg totalAccounts index [] st tr = (Inr st, tr)"
| "process_accounts w lg totalAccounts index (account # accounts) st tr =
     (case process_account w lg totalAccounts index account st tr of
        (Inl e, tr1) \<Rightarrow> (Inl e, tr1)
      | (Inr st1, tr1) \<Rightarrow> process_accounts w lg totalAccounts (Suc index) accounts st1 tr1)"

text \<open>line 178; \<^verbatim>\<open>totalAccounts - successCount\<close> converts \<open>totalAccounts\<close> to a number\<close>

definition summary :: "world \<Rightarrow> json option \<Rightarrow> nat \<Rightarrow> js_error + jsstring" where
  "summary w totalAccounts sc =
     (case render_total w totalAccounts of
        Inl e \<Rightarrow> Inl e
      | Inr totalText \<Rightarrow>
          (case (case totalAccounts of
                   None \<Rightarrow> Inr (asc ''NaN'')
                 | Some v \<Rightarrow>
                     (case to_number w v of
                        Inl e \<Rightarrow> Inl e
                      | Inr None \<Rightarrow> Inr (asc ''NaN'')
                      | Inr (Some n) \<Rightarrow> Inr (show_int (n - int sc)))) of
             Inl e \<Rightarrow> Inl e
           | Inr failed \<Rightarrow>
               Inr (summary_total @ totalText @ summary_success @ show_nat sc @ summary_failed @
                    failed @ newline @ newline)))"

text \<open>What the \<open>try\<close> block has built when it reaches line 181.\<close>

record report =
  report_lines :: "jsstring list"
  report_successes :: nat
  tgMessage :: jsstring

text \<open>lines 137-179, on the parsed configuration\<close>

definition run_accounts ::
  "world \<Rightarrow> login \<Rightarrow> json \<Rightarrow> event list \<Rightarrow> (js_error + report) \<times> event list" where
  "run_accounts w lg accounts tr =
     (if \<not> truthy accounts \<or> config_length accounts = Some (JNum 0)
      then (Inl (Error msg_no_accounts), tr)
      else
        (let currentTime = w_now w;
             totalAccounts = config_length accounts
         in case loop_bound w totalAccounts of
              Inl e \<Rightarrow> (Inl e, tr)
            | Inr n \<Rightarrow>
                (case process_accounts w lg totalAccounts 0 (map (config_at accounts) [0..<n])
                        \<lparr>results = [], successCount = 0\<rparr> tr of
                   (Inl e, tr1) \<Rightarrow> (Inl e, tr1)
                 | (Inr st, tr1) \<Rightarrow>
                     if results st = [] then (Inl (Error msg_no_results), tr1)
                     else
                       (case summary w totalAccounts (successCount st) of
                          Inl e \<Rightarrow> (Inl e, tr1)
                        | Inr s \<Rightarrow>
                            (Inr \<lparr>report_lines = results st,
                                  report_successes = successCount st,
                                  tgMessage = report_title @ currentTime @ newline @ newline @
                                              s @ concat (results st)\<rparr>, tr1)))))"

text \<open>lines 135-179: the \<open>try\<close> block up to the assembled message\<close>

definition run_batch ::
  "world \<Rightarrow> login \<Rightarrow> env \<Rightarrow> event list \<Rightarrow> (js_error + report) \<times> event list" where
  "run_batch w lg env tr =
     (case validateEnvVariables w env of
        Inl e \<Rightarrow> (Inl e, tr)
      | Inr accounts \<Rightarrow> run_accounts w lg accounts tr)"

text \<open>lines 184-188: the \<open>catch\<close> of the handler\<close>

definition report_failure ::
  "world \<Rightarrow> env \<Rightarrow> js_error \<Rightarrow> event list \<Rightarrow> (js_error + unit) \<times> event list" where
  "report_failure w env e tr =
     (let errorMessage = msg_run_failed @ message e
      in case sendTGMessage w errorMessage env (tr @ [Console Err errorMessage]) of
           (Inl e1, tr1) \<Rightarrow> (Inl e1, tr1)
         | (Inr _, tr1) \<Rightarrow> (Inr (), tr1))"

text \<open>
  lines 133-189. Lines 191-193 register this handler for the scheduled event and pass it
  the environment of the event.
\<close>

definition scheduledEventHandler ::
  "world \<Rightarrow> env \<Rightarrow> event list \<Rightarrow> (js_error + unit) \<times> event list" where
  "scheduledEventHandler w env tr =
     (case run_batch w (loginKoyeb w) env tr of
        (Inl e, tr1) \<Rightarrow> report_failure w env e tr1
      | (Inr rp, tr1) \<Rightarrow>
          (case sendTGMessage w (tgMessage rp) env (tr1 @ [Console Log (tgMessage rp)]) of
             (Inl e, tr2) \<Rightarrow> report_failure w env e tr2
           | (Inr _, tr2) \<Rightarrow> (Inr (), tr2)))"

section \<open>Vocabulary of the properties\<close>

text \<open>The requests among the effects, and the requests and pauses without the console.\<close>

fun requests :: "event list \<Rightarrow> request list" where
  "requests [] = []"
| "requests (Fetch rq # tr) = rq # requests tr"
| "requests (ev # tr) = requests tr"

datatype pace = Pause nat | Request http_method jsstring

fun pacing :: "event list \<Rightarrow> pace list" where
  "pacing [] = []"
| "pacing (Fetch rq # tr) = Request (rq_method rq) (rq_url rq) # pacing tr"
| "pacing (Delay ms # tr) = Pause ms # pacing tr"
| "pacing (Console lv s # tr) = pacing tr"

text \<open>
  A request sent after the effects \<open>tr\<close> is accepted when it is answered with a success
  status; otherwise \<open>rejection\<close> is the error that stands for it: the rejection of the
  request, the failure to read the body, or the error of line 23.
\<close>

definition accepted :: "world \<Rightarrow> event list \<Rightarrow> request \<Rightarrow> bool" where
  "accepted w tr rq \<longleftrightarrow> (case w_fetch w tr rq of Inl e \<Rightarrow> False | Inr r \<Rightarrow> ok r)"

definition rejection :: "world \<Rightarrow> event list \<Rightarrow> request \<Rightarrow> js_error" where
  "rejection w tr rq =
     (case w_fetch w tr rq of
        Inl e \<Rightarrow> e
      | Inr r \<Rightarrow> (case rs_text r of Inl e \<Rightarrow> e | Inr errorText \<Rightarrow> http_error r errorText))"

text \<open>
  An account record as the configuration format has it: an object (or any value but
  \<open>null\<close>) whose \<open>email\<close>, when present, is a string or \<open>null\<close>. These are the
  records on which line 148 does not throw.
\<close>

definition well_typed :: "json \<Rightarrow> bool" where
  "well_typed a \<longleftrightarrow>
     a \<noteq> JNull \<and>
     (case get_field a (asc ''email'') of
        None \<Rightarrow> True
      | Some JNull \<Rightarrow> True
      | Some (JStr s) \<Rightarrow> True
      | Some _ \<Rightarrow> False)"

text \<open>The email of a record as line 148 computes it, when the record has a string there.\<close>

definition record_email :: "json \<Rightarrow> jsstring option" where
  "record_email a =
     (case get_field a (asc ''email'') of Some (JStr s) \<Rightarrow> Some (trim s) | _ \<Rightarrow> None)"

text \<open>
  A record that passes line 151: its trimmed email is not empty and its password is
  truthy (for a string: not empty).
\<close>

definition complete :: "json \<Rightarrow> bool" where
  "complete a \<longleftrightarrow>
     (case record_email a of
        None \<Rightarrow> False
      | Some e \<Rightarrow>
          e \<noteq> [] \<and> (case get_field a (asc ''password'') of None \<Rightarrow> False | Some p \<Rightarrow> truthy p))"

text \<open>A record whose email and password are strings that are not empty.\<close>

definition nonempty_credentials :: "json \<Rightarrow> bool" where
  "nonempty_credentials a \<longleftrightarrow>
     (case (get_field a (asc ''email''), get_field a (asc ''password'')) of
        (Some (JStr e), Some (JStr p)) \<Rightarrow> e \<noteq> [] \<and> p \<noteq> []
      | _ \<Rightarrow> False)"

text \<open>The line that the loop pushes for an email and the outcome of its login.\<close>

definition outcome_line :: "jsstring \<Rightarrow> js_error + bool \<times> jsstring \<Rightarrow> jsstring" where
  "outcome_line email outcome =
     (case outcome of
        Inl e \<Rightarrow> line_exception email e
      | Inr (success, msg) \<Rightarrow> if success then line_success email else line_failure email msg)"

text \<open>A line is the line of a record when it renders an outcome of the login of that record.\<close>

definition line_of :: "login \<Rightarrow> json \<Rightarrow> jsstring \<Rightarrow> bool" where
  "line_of lg a l \<longleftrightarrow>
     (\<exists>e p t. record_email a = Some e \<and> get_field a (asc ''password'') = Some p \<and>
              l = outcome_line e (fst (lg e p t)))"

text \<open>The lines of successful logins start with the check mark of line 165.\<close>

definition is_success_line :: "jsstring \<Rightarrow> bool" where
  "is_success_line l \<longleftrightarrow> startsWith l [0x2705]"

text \<open>What the requests and pauses of the loop are, record by record, from index \<open>i\<close> on.\<close>

fun expected_pacing :: "nat \<Rightarrow> json list \<Rightarrow> pace list" where
  "expected_pacing i [] = []"
| "expected_pacing i (a # as) =
     (if complete a
      then (if i > 0 then [Pause 5000] else []) @
           [Request GET loginPageUrl, Request POST loginUrl]
      else []) @ expected_pacing (Suc i) as"

text \<open>The summary of line 178 for the numbers it shows.\<close>

definition summary_text :: "nat \<Rightarrow> nat \<Rightarrow> nat \<Rightarrow> jsstring" where
  "summary_text shown_total shown_ok shown_failed =
     summary_total @ show_nat shown_total @ summary_success @ show_nat shown_ok @
     summary_failed @ show_nat shown_failed @ newline @ newline"

text \<open>The console line of line 157 for an array of \<open>n\<close> records.\<close>

definition info_event :: "nat \<Rightarrow> int \<Rightarrow> jsstring \<Rightarrow> event" where
  "info_event i n e =
     Console Info (info_processing @ show_nat (i + 1) @ asc ''/'' @ show_int n @ asc '': '' @ e)"

text \<open>What lines 104-107 append for a body read as text.\<close>

definition text_diagnostic :: "jsstring \<Rightarrow> jsstring" where
  "text_diagnostic body =
     (if trim body \<noteq> [] then asc '' - '' @ slice0 200 (trim body) else [])"

section \<open>Concrete runs\<close>

text \<open>
  A runtime for the examples: the network and \<open>JSON.parse\<close> are given, the clock shows
  a fixed time and the other conversions are not called.
\<close>

definition example_world ::
  "(event list \<Rightarrow> request \<Rightarrow> js_error + response) \<Rightarrow> (jsstring \<Rightarrow> js_error + json) \<Rightarrow> world" where
  "example_world net parse =
     \<lparr>w_fetch = net, w_now = asc ''2024/1/1 08:00:00'', w_json_parse = parse,
      w_stringify = (\<lambda>v. asc ''{}''),
      w_to_string = (\<lambda>v. Inr (asc ''[object Object]'')),
      w_to_number = (\<lambda>v. Inr None),
      w_type_error = (\<lambda>f. Error (asc ''TypeError''))\<rparr>"

definition no_json :: "jsstring \<Rightarrow> js_error + json" where
  "no_json s = Inl (Error (asc ''SyntaxError''))"

text \<open>Responses with a status and a body: without the two headers, as JSON, as HTML.\<close>

definition plain_response :: "nat \<Rightarrow> jsstring \<Rightarrow> response" where
  "plain_response st body =
     \<lparr>rs_status = st, rs_set_cookie = None, rs_content_type = None, rs_text = Inr body\<rparr>"

definition json_response :: "nat \<Rightarrow> jsstring \<Rightarrow> response" where
  "json_response st body =
     \<lparr>rs_status = st, rs_set_cookie = None,
      rs_content_type = Some (asc ''application/json; charset=utf-8''), rs_text = Inr body\<rparr>"

definition html_response :: "nat \<Rightarrow> jsstring \<Rightarrow> response" where
  "html_response st body =
     \<lparr>rs_status = st, rs_set_cookie = None,
      rs_content_type = Some (asc ''text/html''), rs_text = Inr body\<rparr>"

text \<open>A network that answers every request with the same response.\<close>

definition answers :: "response \<Rightarrow> event list \<Rightarrow> request \<Rightarrow> js_error + response" where
  "answers r tr rq = Inr r"

text \<open>A network that answers the first request of a run with 400 and the later ones with 200.\<close>

definition first_400 :: "event list \<Rightarrow> request \<Rightarrow> js_error + response" where
  "first_400 tr rq = Inr (plain_response (if requests tr = [] then 400 else 200) [])"

text \<open>A \<open>JSON.parse\<close> that returns the given value.\<close>

definition parses_as :: "json \<Rightarrow> jsstring \<Rightarrow> js_error + json" where
  "parses_as v s = Inr v"

text \<open>An account record with these strings as email and password.\<close>

definition account :: "string \<Rightarrow> string \<Rightarrow> json" where
  "account e p = JObj [(asc ''email'', JStr (asc e)), (asc ''password'', JStr (asc p))]"

text \<open>A record whose email is the number 5.\<close>

definition numeric_email_record :: json where
  "numeric_email_record = JObj [(asc ''email'', JNum 5), (asc ''password'', JStr (asc ''pb''))]"

text \<open>A login that throws for one email and succeeds for every other, without effects.\<close>

definition crashing_login :: "jsstring \<Rightarrow> login" where
  "crashing_login bad email password tr =
     (if email = bad then (Inl (Error (asc ''boom'')), tr) else (Inr (True, msg_login_ok), tr))"

text \<open>A runtime whose network answers 200 to everything, and one whose \<open>JSON.parse\<close> is given.\<close>

definition world_200 :: world where
  "world_200 = example_world (answers (plain_response 200 [])) no_json"

definition parsed_world :: "json \<Rightarrow> world" where
  "parsed_world v = example_world (answers (plain_response 200 [])) (parses_as v)"

definition env_unset :: env where
  "env_unset = \<lparr>TG_BOT_TOKEN = None, TG_CHAT_ID = None, KOYEB_ACCOUNTS = None\<rparr>"

definition env_accounts :: "jsstring \<Rightarrow> env" where
  "env_accounts s = \<lparr>TG_BOT_TOKEN = None, TG_CHAT_ID = None, KOYEB_ACCOUNTS = Some s\<rparr>"

definition env_telegram :: env where
  "env_telegram =
     \<lparr>TG_BOT_TOKEN = Some (asc ''123:abc''), TG_CHAT_ID = Some (asc ''42''),
      KOYEB_ACCOUNTS = None\<rparr>"

section \<open>Decimal rendering, substrings and projections of the effects\<close>

lemma show_nat_three:
  assumes "100 \<le> n" "n < 1000"
  shows "show_nat n = [digit (n div 100), digit (n div 10 mod 10), digit (n mod 10)]"
proof -
  have n1: "\<not> n < 10" and n2: "\<not> n div 10 < 10" and n3: "n div 10 div 10 < 10"
    using assms by auto
  have h: "n div 10 div 10 = n div 100"
    by (simp add: div_mult2_eq[symmetric])
  have a: "show_nat n = show_nat (n div 10) @ [digit (n mod 10)]"
    using n1 show_nat.simps[of n] by simp
  have b: "show_nat (n div 10) = show_nat (n div 10 div 10) @ [digit (n div 10 mod 10)]"
    using n2 show_nat.simps[of "n div 10"] by simp
  have c: "show_nat (n div 10 div 10) = [digit (n div 100)]"
    using n3 show_nat.simps[of "n div 10 div 10"] by (simp only: h if_True)
  show ?thesis by (simp only: a b c append.simps)
qed

lemma show_int_nat: "show_int (int k) = show_nat k"
  by (simp add: show_int_def)

lemma unat_char16: "k < 65536 \<Longrightarrow> unat (of_nat k :: char16) = k"
  by (simp add: unat_of_nat)

lemma unat_digit: "a < 10 \<Longrightarrow> unat (digit a) = 48 + a"
  unfolding digit_def by (rule unat_char16) simp

lemma digit_inj: "a < 10 \<Longrightarrow> b < 10 \<Longrightarrow> digit a = digit b \<longleftrightarrow> a = b"
proof
  assume ab: "a < 10" "b < 10" and eq: "digit a = digit b"
  have "unat (digit a) = unat (digit b)" using eq by (rule arg_cong)
  then have "48 + a = 48 + b" using ab by (simp only: unat_digit)
  then show "a = b" by simp
qed simp

lemma digits_400:
  "(n div 100 = 4 \<and> n div 10 mod 10 = 0 \<and> n mod 10 = 0) \<longleftrightarrow> n = (400::nat)"
proof
  assume A: "n div 100 = 4 \<and> n div 10 mod 10 = 0 \<and> n mod 10 = 0"
  have h: "n div 10 div 10 = n div 100"
    by (simp add: div_mult2_eq[symmetric])
  have "n div 10 div 10 * 10 + n div 10 mod 10 = n div 10"
    by (rule div_mult_mod_eq)
  then have t: "n div 10 = 40" using A h by simp
  have "n div 10 * 10 + n mod 10 = n"
    by (rule div_mult_mod_eq)
  then show "n = 400" using A t by simp
next
  assume "n = 400"
  then show "n div 100 = 4 \<and> n div 10 mod 10 = 0 \<and> n mod 10 = 0" by simp
qed

text \<open>Among the three-digit statuses, only 400 makes the message of line 23 start with "HTTP 400".\<close>

lemma starts_http_400:
  assumes "100 \<le> n" "n < 1000"
  shows "startsWith (asc ''HTTP '' @ show_nat n @ d) (asc ''HTTP 400'') \<longleftrightarrow> n = 400"
proof -
  have d4: "(0x34::char16) = digit 4" and d0: "(0x30::char16) = digit 0"
    by (simp_all add: digit_def)
  have lt: "n div 100 < 10" "n div 10 mod 10 < 10" "n mod 10 < 10"
    using assms by auto
  have "startsWith (asc ''HTTP '' @ show_nat n @ d) (asc ''HTTP 400'') \<longleftrightarrow>
        digit (n div 100) = digit 4 \<and> digit (n div 10 mod 10) = digit 0 \<and> digit (n mod 10) = digit 0"
    using assms by (simp add: show_nat_three asc_def d4 d0)
  also have "\<dots> \<longleftrightarrow> n div 100 = 4 \<and> n div 10 mod 10 = 0 \<and> n mod 10 = 0"
    using lt by (simp add: digit_inj)
  also have "\<dots> \<longleftrightarrow> n = 400" by (rule digits_400)
  finally show ?thesis .
qed

lemma startsWith_append: "startsWith (p @ t) p"
  by (induction p) simp_all

lemma includes_if_starts: "startsWith s p \<Longrightarrow> includes_str s p"
  by (cases s; cases p) simp_all

lemma includes_prefix: "includes_str (p @ t) p"
  by (rule includes_if_starts) (rule startsWith_append)

lemma includes_append_right: "includes_str s p \<Longrightarrow> includes_str (t @ s) p"
  by (induction t) simp_all

lemma requests_append: "requests (a @ b) = requests a @ requests b"
  by (induction a rule: requests.induct) auto

lemma pacing_append: "pacing (a @ b) = pacing a @ pacing b"
  by (induction a rule: pacing.induct) simp_all

lemma count_split: "length (filter P l) + length (filter (\<lambda>x. \<not> P x) l) = length l"
  by (induction l) simp_all

section \<open>The authenticator\<close>

text \<open>
  C8: a call of \<open>loginKoyeb\<close> with an empty email or an empty password returns
  \<open>[false, "email or password is empty"]\<close> at once: the effects are unchanged, so no
  request is made.
\<close>

theorem loginKoyeb_empty_credentials:
  "email = [] \<or> password = JStr [] \<Longrightarrow>
     loginKoyeb w email password tr = (Inr (False, msg_credentials_empty), tr)"
  by (auto simp: loginKoyeb_def)

theorem loginKoyeb_empty_credentials_witness:
  "loginKoyeb world_200 [] (JStr (asc ''x'')) [] = (Inr (False, msg_credentials_empty), []) \<and>
   loginKoyeb world_200 (asc ''x'') (JStr []) [] = (Inr (False, msg_credentials_empty), [])"
  using loginKoyeb_empty_credentials [of "[]" "JStr (asc ''x'')" world_200 "[]"]
        loginKoyeb_empty_credentials [of "asc ''x''" "JStr []" world_200 "[]"]
  by simp

text \<open>The login sends its two requests whatever the answers are, and pauses nowhere.\<close>

lemma preflight_pacing:
  "pacing (snd (preflight w tr)) = pacing tr @ [Request GET loginPageUrl]"
  by (simp add: preflight_def Let_def pacing_append preflight_request_def
        split: sum.splits option.splits)

lemma loginKoyeb_pacing:
  assumes "e \<noteq> []" "truthy p"
  shows "pacing (snd (loginKoyeb w e p tr)) =
           pacing tr @ [Request GET loginPageUrl, Request POST loginUrl]"
proof -
  obtain c tr1 where pf: "preflight w tr = (c, tr1)" by (cases "preflight w tr")
  with preflight_pacing [of w tr] have p1: "pacing tr1 = pacing tr @ [Request GET loginPageUrl]"
    by simp
  have "snd (loginKoyeb w e p tr) = tr1 @ [Fetch (login_request w e p c)]"
    using assms pf by (simp add: loginKoyeb_def Let_def split: sum.splits)
  then show ?thesis
    by (simp add: pacing_append p1 login_request_def Let_def)
qed

text \<open>Every failure of the login is a result pair: \<open>loginKoyeb\<close> does not throw.\<close>

lemma loginKoyeb_never_throws: "\<exists>r. fst (loginKoyeb w email password tr) = Inr r"
proof (cases "email = [] \<or> \<not> truthy password")
  case True
  then show ?thesis by (auto simp: loginKoyeb_def)
next
  case False
  obtain c tr1 where p: "preflight w tr = (c, tr1)" by (cases "preflight w tr")
  show ?thesis
    using False p
    by (cases "w_fetch w tr1 (login_request w email password c)")
       (auto simp: loginKoyeb_def Let_def split: sum.splits)
qed

text \<open>
  C6 (as the code has it): when the login request is answered with a status that is not
  a success and the response is not JSON-typed, the diagnostic appended to the message is
  the trimmed body cut to its first 200 code units (after the separator " - "), so the
  appended part has at most 203 units. The diagnostic taken from a JSON-typed body is
  not cut.
\<close>

theorem login_text_diagnostic_capped:
  assumes creds: "email \<noteq> []" "truthy password"
    and post: "\<And>t rq. rq_method rq = POST \<Longrightarrow> w_fetch w t rq = Inr response"
    and resp: "\<not> ok response" "\<not> json_typed response" "rs_text response = Inr body"
  shows "fst (loginKoyeb w email password tr) =
           Inr (False, msg_http_status @ show_nat (rs_status response) @ text_diagnostic body @
                       (if rs_status response = 403 then msg_challenge else [])) \<and>
         length (text_diagnostic body) \<le> 203 \<and>
         length (slice0 200 (trim body)) \<le> 200"
proof -
  obtain c tr1 where p: "preflight w tr = (c, tr1)"
    by (cases "preflight w tr")
  have m: "rq_method (login_request w email password c) = POST"
    by (simp add: login_request_def Let_def)
  have f: "w_fetch w tr1 (login_request w email password c) = Inr response"
    using post [OF m] .
  have diag: "login_diagnostic w response = Inr (text_diagnostic body)"
    using resp by (simp add: login_diagnostic_def Let_def text_diagnostic_def)
  have len: "length (text_diagnostic body) \<le> 203"
    by (simp add: text_diagnostic_def slice0_def asc_def)
  have "fst (loginKoyeb w email password tr) =
          Inr (False, msg_http_status @ show_nat (rs_status response) @ text_diagnostic body @
                      (if rs_status response = 403 then msg_challenge else []))"
    using creds p f resp(1) diag
    by (simp add: loginKoyeb_def Let_def login_error_message_def)
  then show ?thesis using len by (simp add: slice0_def)
qed

theorem login_text_diagnostic_capped_witness:
  "\<not> ok (html_response 502 (replicate 250 0x0078)) \<and>
   \<not> json_typed (html_response 502 (replicate 250 0x0078)) \<and>
   text_diagnostic (replicate 250 0x0078) = asc '' - '' @ replicate 200 0x0078 \<and>
   fst (loginKoyeb (example_world (answers (html_response 502 (replicate 250 0x0078))) no_json)
          (asc ''a@x.io'') (JStr (asc ''pa'')) []) =
     Inr (False, msg_http_status @ show_nat 502 @ asc '' - '' @ replicate 200 0x0078)"
proof -
  let ?r = "html_response 502 (replicate 250 0x0078)"
  let ?w = "example_world (answers ?r) no_json"
  have c: "asc ''a@x.io'' \<noteq> []" "truthy (JStr (asc ''pa''))"
    by (simp_all add: asc_def)
  have p: "\<And>t rq. rq_method rq = POST \<Longrightarrow> w_fetch ?w t rq = Inr ?r"
    by (simp add: example_world_def answers_def)
  have r: "\<not> ok ?r" "rs_text ?r = Inr (replicate 250 0x0078)" "rs_status ?r = 502"
    by (simp_all add: ok_def html_response_def)
  have j: "\<not> json_typed ?r"
    by code_simp
  have d: "text_diagnostic (replicate 250 0x0078) = asc '' - '' @ replicate 200 0x0078"
    by code_simp
  from login_text_diagnostic_capped [OF c p r(1) j r(2), of "[]"] r(1) r(3) j d
  show ?thesis by simp
qed

theorem login_json_diagnostic_not_capped:
  "\<not> ok (json_response 400 (asc ''{...}'')) \<and>
   json_typed (json_response 400 (asc ''{...}'')) \<and>
   fst (loginKoyeb
          (example_world (answers (json_response 400 (asc ''{...}'')))
             (parses_as (JObj [(asc ''message'', JStr (replicate 300 0x0061))])))
          (asc ''a@x.io'') (JStr (asc ''pa'')) []) =
     Inr (False, msg_http_status @ asc ''400'' @ asc '' - '' @ replicate 300 0x0061)"
  by code_simp

section \<open>The notifier\<close>

text \<open>
  C4 (as the code has it): \<open>sendTGMessage\<close> never throws and returns \<open>true\<close> or
  \<open>null\<close>. When the token or the chat id is unset or empty it returns \<open>null\<close> after a
  warning and without a request. When both are set it returns \<open>true\<close> exactly when the
  message was delivered, that is when the first request is accepted, or the first is
  rejected with a message that starts with "HTTP 400" and the retry is accepted. It
  returns \<open>null\<close> in every other case, which is exactly when the diagnostic of the
  failure has been written to the console; one or two requests are sent.
\<close>

theorem sendTGMessage_never_throws:
  "\<exists>r tr'. sendTGMessage w msg env tr = (Inr r, tr') \<and>
     (unset (TG_BOT_TOKEN env) \<or> unset (TG_CHAT_ID env) \<longrightarrow>
        r = ReturnsNull \<and> tr' = tr @ [Console Warn warn_tg_unset]) \<and>
     (\<forall>botToken chatId.
        TG_BOT_TOKEN env = Some botToken \<and> TG_CHAT_ID env = Some chatId \<and>
        botToken \<noteq> [] \<and> chatId \<noteq> [] \<longrightarrow>
        (r = ReturnsTrue \<longleftrightarrow>
           accepted w tr (json_post w (tg_url botToken) (markdown_payload chatId msg)) \<or>
           startsWith
             (message (rejection w tr (json_post w (tg_url botToken) (markdown_payload chatId msg))))
             (asc ''HTTP 400'') \<and>
           accepted w
             (tr @ [Fetch (json_post w (tg_url botToken) (markdown_payload chatId msg)),
                    Console Warn (warn_tg_retry @
                      message (rejection w tr
                        (json_post w (tg_url botToken) (markdown_payload chatId msg))))])
             (json_post w (tg_url botToken) (plain_payload chatId msg))) \<and>
        (r = ReturnsNull \<longleftrightarrow> (\<exists>d. last tr' = Console Err (err_tg_failed @ d))) \<and>
        requests tr' = requests tr @
          (if \<not> accepted w tr (json_post w (tg_url botToken) (markdown_payload chatId msg)) \<and>
              startsWith
                (message (rejection w tr
                   (json_post w (tg_url botToken) (markdown_payload chatId msg))))
                (asc ''HTTP 400'')
           then [json_post w (tg_url botToken) (markdown_payload chatId msg),
                 json_post w (tg_url botToken) (plain_payload chatId msg)]
           else [json_post w (tg_url botToken) (markdown_payload chatId msg)]))"
proof (cases "unset (TG_BOT_TOKEN env) \<or> unset (TG_CHAT_ID env)")
  case True
  then show ?thesis
    by (auto simp: sendTGMessage_def unset_def split: option.splits)
next
  case False
  then obtain botToken chatId where cfg: "TG_BOT_TOKEN env = Some botToken"
      "TG_CHAT_ID env = Some chatId" "botToken \<noteq> []" "chatId \<noteq> []"
    by (auto simp: unset_def split: option.splits)
  define rq1 where "rq1 = json_post w (tg_url botToken) (markdown_payload chatId msg)"
  define rq2 where "rq2 = json_post w (tg_url botToken) (plain_payload chatId msg)"
  have sj: "sendJson w (tg_url botToken) pl t =
      (if accepted w t (json_post w (tg_url botToken) pl)
       then (w_fetch w t (json_post w (tg_url botToken) pl),
             t @ [Fetch (json_post w (tg_url botToken) pl)])
       else (Inl (rejection w t (json_post w (tg_url botToken) pl)),
             t @ [Fetch (json_post w (tg_url botToken) pl)]))" for pl t
    by (auto simp: sendJson_def accepted_def rejection_def Let_def split: sum.splits)
  have acc: "accepted w t rq \<Longrightarrow> \<exists>r. w_fetch w t rq = Inr r" for t rq
    by (auto simp: accepted_def split: sum.splits)
  show ?thesis
  proof (cases "accepted w tr rq1")
    case True
    with acc [OF True] cfg show ?thesis
      unfolding rq1_def [symmetric] rq2_def [symmetric]
      by (auto simp: sendTGMessage_def Let_def sj rq1_def [symmetric] unset_def requests_append)
  next
    case n1: False
    show ?thesis
    proof (cases "startsWith (message (rejection w tr rq1)) (asc ''HTTP 400'')")
      case False
      with n1 cfg show ?thesis
        unfolding rq1_def [symmetric] rq2_def [symmetric]
        by (auto simp: sendTGMessage_def Let_def sj rq1_def [symmetric] unset_def requests_append)
    next
      case s: True
      show ?thesis
      proof (cases "accepted w (tr @ [Fetch rq1,
                 Console Warn (warn_tg_retry @ message (rejection w tr rq1))]) rq2")
        case True
        with acc [OF True] n1 s cfg show ?thesis
          unfolding rq1_def [symmetric] rq2_def [symmetric]
          by (auto simp: sendTGMessage_def Let_def sj rq1_def [symmetric] rq2_def [symmetric]
                unset_def requests_append)
      next
        case False
        with n1 s cfg show ?thesis
          unfolding rq1_def [symmetric] rq2_def [symmetric]
          by (auto simp: sendTGMessage_def Let_def sj rq1_def [symmetric] rq2_def [symmetric]
                unset_def requests_append)
      qed
    qed
  qed
qed

theorem sendTGMessage_never_throws_witness:
  "unset (TG_BOT_TOKEN env_unset) \<and>
   sendTGMessage (example_world (answers (plain_response 500 [])) no_json) (asc ''hi'') env_unset []
     = (Inr ReturnsNull, [Console Warn warn_tg_unset]) \<and>
   TG_BOT_TOKEN env_telegram = Some (asc ''123:abc'') \<and>
   TG_CHAT_ID env_telegram = Some (asc ''42'') \<and>
   \<not> accepted (example_world (answers (plain_response 500 [])) no_json) []
       (json_post (example_world (answers (plain_response 500 [])) no_json)
          (tg_url (asc ''123:abc'')) (markdown_payload (asc ''42'') (asc ''hi''))) \<and>
   (\<exists>tr' d. sendTGMessage (example_world (answers (plain_response 500 [])) no_json) (asc ''hi'')
               env_telegram [] = (Inr ReturnsNull, tr') \<and>
            last tr' = Console Err (err_tg_failed @ d)) \<and>
   accepted world_200 []
       (json_post world_200 (tg_url (asc ''123:abc'')) (markdown_payload (asc ''42'') (asc ''hi''))) \<and>
   (\<exists>tr'. sendTGMessage world_200 (asc ''hi'') env_telegram [] = (Inr ReturnsTrue, tr') \<and>
          requests tr' =
            [json_post world_200 (tg_url (asc ''123:abc'')) (markdown_payload (asc ''42'') (asc ''hi''))])"
proof -
  let ?w = "example_world (answers (plain_response 500 [])) no_json"
  let ?rq = "\<lambda>w. json_post w (tg_url (asc ''123:abc'')) (markdown_payload (asc ''42'') (asc ''hi''))"
  have u: "unset (TG_BOT_TOKEN env_unset)"
    by (simp add: unset_def env_unset_def)
  have c: "TG_BOT_TOKEN env_telegram = Some (asc ''123:abc'') \<and>
      TG_CHAT_ID env_telegram = Some (asc ''42'') \<and> asc ''123:abc'' \<noteq> [] \<and> asc ''42'' \<noteq> []"
    by (simp add: env_telegram_def asc_def)
  have n5: "\<not> accepted ?w [] (?rq ?w)"
    by (simp add: accepted_def example_world_def answers_def ok_def plain_response_def)
  have s5: "\<not> startsWith (message (rejection ?w [] (?rq ?w))) (asc ''HTTP 400'')"
    by code_simp
  have a2: "accepted world_200 [] (?rq world_200)"
    by (simp add: accepted_def world_200_def example_world_def answers_def ok_def plain_response_def)
  have cfg: "\<exists>r tr'. sendTGMessage w (asc ''hi'') env_telegram [] = (Inr r, tr') \<and>
        (r = ReturnsTrue \<longleftrightarrow>
           accepted w [] (?rq w) \<or>
           startsWith (message (rejection w [] (?rq w))) (asc ''HTTP 400'') \<and>
           accepted w
             ([] @ [Fetch (?rq w), Console Warn (warn_tg_retry @ message (rejection w [] (?rq w)))])
             (json_post w (tg_url (asc ''123:abc'')) (plain_payload (asc ''42'') (asc ''hi'')))) \<and>
        (r = ReturnsNull \<longleftrightarrow> (\<exists>d. last tr' = Console Err (err_tg_failed @ d))) \<and>
        requests tr' = requests [] @
          (if \<not> accepted w [] (?rq w) \<and>
              startsWith (message (rejection w [] (?rq w))) (asc ''HTTP 400'')
           then [?rq w,
                 json_post w (tg_url (asc ''123:abc'')) (plain_payload (asc ''42'') (asc ''hi''))]
           else [?rq w])" for w
  proof -
    from sendTGMessage_never_throws [of w "asc ''hi''" env_telegram "[]"]
    obtain r tr' where X: "sendTGMessage w (asc ''hi'') env_telegram [] = (Inr r, tr')"
      and Y: "\<forall>botToken chatId.
        TG_BOT_TOKEN env_telegram = Some botToken \<and> TG_CHAT_ID env_telegram = Some chatId \<and>
        botToken \<noteq> [] \<and> chatId \<noteq> [] \<longrightarrow>
        (r = ReturnsTrue \<longleftrightarrow>
           accepted w [] (json_post w (tg_url botToken) (markdown_payload chatId (asc ''hi''))) \<or>
           startsWith
             (message (rejection w [] (json_post w (tg_url botToken) (markdown_payload chatId (asc ''hi'')))))
             (asc ''HTTP 400'') \<and>
           accepted w
             ([] @ [Fetch (json_post w (tg_url botToken) (markdown_payload chatId (asc ''hi''))),
                    Console Warn (warn_tg_retry @
                      message (rejection w []
                        (json_post w (tg_url botToken) (markdown_payload chatId (asc ''hi'')))))])
             (json_post w (tg_url botToken) (plain_payload chatId (asc ''hi'')))) \<and>
        (r = ReturnsNull \<longleftrightarrow> (\<exists>d. last tr' = Console Err (err_tg_failed @ d))) \<and>
        requests tr' = requests [] @
          (if \<not> accepted w [] (json_post w (tg_url botToken) (markdown_payload chatId (asc ''hi''))) \<and>
              startsWith
                (message (rejection w []
                   (json_post w (tg_url botToken) (markdown_payload chatId (asc ''hi'')))))
                (asc ''HTTP 400'')
           then [json_post w (tg_url botToken) (markdown_payload chatId (asc ''hi'')),
                 json_post w (tg_url botToken) (plain_payload chatId (asc ''hi''))]
           else [json_post w (tg_url botToken) (markdown_payload chatId (asc ''hi''))])"
      by (elim exE conjE) (rule that)
    from Y [rule_format, OF c] X show ?thesis
      by (elim conjE) (intro exI conjI, assumption+)
  qed
  from sendTGMessage_never_throws [of ?w "asc ''hi''" env_unset "[]"] u
  have a: "sendTGMessage ?w (asc ''hi'') env_unset [] = (Inr ReturnsNull, [Console Warn warn_tg_unset])"
    by (elim exE conjE) simp
  from cfg [of ?w] obtain r tr' where run: "sendTGMessage ?w (asc ''hi'') env_telegram [] = (Inr r, tr')"
    and t: "r = ReturnsTrue \<longleftrightarrow>
           accepted ?w [] (?rq ?w) \<or>
           startsWith (message (rejection ?w [] (?rq ?w))) (asc ''HTTP 400'') \<and>
           accepted ?w
             ([] @ [Fetch (?rq ?w), Console Warn (warn_tg_retry @ message (rejection ?w [] (?rq ?w)))])
             (json_post ?w (tg_url (asc ''123:abc'')) (plain_payload (asc ''42'') (asc ''hi'')))"
    and l: "r = ReturnsNull \<longleftrightarrow> (\<exists>d. last tr' = Console Err (err_tg_failed @ d))"
    by (elim exE conjE) (rule that)
  from t n5 s5 have rn: "r = ReturnsNull" by (cases r) (simp_all only: simp_thms)
  with l obtain d where "last tr' = Console Err (err_tg_failed @ d)" by (elim iffE impE exE) simp_all
  with run rn have b: "\<exists>tr' d. sendTGMessage ?w (asc ''hi'') env_telegram [] = (Inr ReturnsNull, tr') \<and>
            last tr' = Console Err (err_tg_failed @ d)"
    by (intro exI conjI) simp_all
  from cfg [of world_200]
  obtain r2 tr2 where run2: "sendTGMessage world_200 (asc ''hi'') env_telegram [] = (Inr r2, tr2)"
    and t2: "r2 = ReturnsTrue \<longleftrightarrow>
           accepted world_200 [] (?rq world_200) \<or>
           startsWith (message (rejection world_200 [] (?rq world_200))) (asc ''HTTP 400'') \<and>
           accepted world_200
             ([] @ [Fetch (?rq world_200),
                    Console Warn (warn_tg_retry @ message (rejection world_200 [] (?rq world_200)))])
             (json_post world_200 (tg_url (asc ''123:abc'')) (plain_payload (asc ''42'') (asc ''hi'')))"
    and q2: "requests tr2 = requests [] @
          (if \<not> accepted world_200 [] (?rq world_200) \<and>
              startsWith (message (rejection world_200 [] (?rq world_200))) (asc ''HTTP 400'')
           then [?rq world_200,
                 json_post world_200 (tg_url (asc ''123:abc'')) (plain_payload (asc ''42'') (asc ''hi''))]
           else [?rq world_200])"
    by (elim exE conjE) (rule that)
  from t2 a2 have r2: "r2 = ReturnsTrue" by (simp only: simp_thms)
  from q2 a2 have "requests tr2 = [?rq world_200]" by (simp only: simp_thms if_False requests.simps append_Nil)
  with run2 r2 have d: "\<exists>tr'. sendTGMessage world_200 (asc ''hi'') env_telegram [] = (Inr ReturnsTrue, tr') \<and>
          requests tr' = [?rq world_200]"
    by (intro exI conjI) simp_all
  from c have c1: "TG_BOT_TOKEN env_telegram = Some (asc ''123:abc'')"
    and c2: "TG_CHAT_ID env_telegram = Some (asc ''42'')" by simp_all
  show ?thesis
    by (intro conjI u a c1 c2 n5 b a2 d)
qed

text \<open>A skipped send and a failed send return the same value.\<close>

theorem sendTGMessage_null_for_skipped_and_failed:
  "fst (sendTGMessage (example_world (answers (plain_response 500 [])) no_json) (asc ''hi'') env_unset [])
     = Inr ReturnsNull \<and>
   requests (snd (sendTGMessage (example_world (answers (plain_response 500 [])) no_json)
                    (asc ''hi'') env_unset [])) = [] \<and>
   fst (sendTGMessage (example_world (answers (plain_response 500 [])) no_json) (asc ''hi'') env_telegram [])
     = Inr ReturnsNull \<and>
   length (requests (snd (sendTGMessage (example_world (answers (plain_response 500 [])) no_json)
                            (asc ''hi'') env_telegram []))) = 1"
  by code_simp

text \<open>
  C5 (as the code has it): when the first, Markdown-formatted attempt is answered with
  status 400, \<open>sendTGMessage\<close> sends exactly one more request, whose payload has no
  \<open>parse_mode\<close>, and returns \<open>true\<close> exactly when that retry is answered with a
  success. With any other three-digit status that is not a success, 4xx included, it
  sends nothing more and returns \<open>null\<close>.
\<close>

theorem sendTGMessage_retries_once_on_400:
  assumes cfg: "TG_BOT_TOKEN env = Some botToken" "TG_CHAT_ID env = Some chatId"
      "botToken \<noteq> []" "chatId \<noteq> []"
    and first: "w_fetch w tr (json_post w (tg_url botToken) (markdown_payload chatId msg)) = Inr response"
      "\<not> ok response" "rs_text response = Inr errorText"
    and digits: "100 \<le> rs_status response" "rs_status response < 1000"
  shows "(rs_status response = 400 \<longrightarrow>
            requests (snd (sendTGMessage w msg env tr)) =
              requests tr @ [json_post w (tg_url botToken) (markdown_payload chatId msg),
                             json_post w (tg_url botToken) (plain_payload chatId msg)] \<and>
            get_field (plain_payload chatId msg) (asc ''parse_mode'') = None \<and>
            (fst (sendTGMessage w msg env tr) = Inr ReturnsTrue \<longleftrightarrow>
               (\<exists>r2. w_fetch w (tr @ [Fetch (json_post w (tg_url botToken) (markdown_payload chatId msg)),
                                       Console Warn (warn_tg_retry @ message (http_error response errorText))])
                         (json_post w (tg_url botToken) (plain_payload chatId msg)) = Inr r2 \<and> ok r2))) \<and>
         (rs_status response \<noteq> 400 \<longrightarrow>
            requests (snd (sendTGMessage w msg env tr)) =
              requests tr @ [json_post w (tg_url botToken) (markdown_payload chatId msg)] \<and>
            fst (sendTGMessage w msg env tr) = Inr ReturnsNull)"
proof -
  have sw: "startsWith (message (http_error response errorText)) (asc ''HTTP 400'')
              \<longleftrightarrow> rs_status response = 400"
    using digits by (simp add: http_error_def Let_def starts_http_400)
  have one: "sendJson w (tg_url botToken) (markdown_payload chatId msg) tr =
          (Inl (http_error response errorText),
           tr @ [Fetch (json_post w (tg_url botToken) (markdown_payload chatId msg))])"
    using first by (simp add: sendJson_def Let_def)
  have pm: "get_field (plain_payload chatId msg) (asc ''parse_mode'') = None"
    by (simp add: plain_payload_def asc_def)
  show ?thesis
    using cfg one sw pm
    by (auto simp: sendTGMessage_def Let_def requests_append sendJson_def
             split: sum.splits prod.splits if_splits)
qed

theorem sendTGMessage_retries_once_on_400_witness:
  "w_fetch (example_world first_400 no_json) []
       (json_post (example_world first_400 no_json) (tg_url (asc ''123:abc''))
          (markdown_payload (asc ''42'') (asc ''hi''))) = Inr (plain_response 400 []) \<and>
   \<not> ok (plain_response 400 []) \<and>
   requests (snd (sendTGMessage (example_world first_400 no_json) (asc ''hi'') env_telegram [])) =
     [json_post (example_world first_400 no_json) (tg_url (asc ''123:abc''))
        (markdown_payload (asc ''42'') (asc ''hi'')),
      json_post (example_world first_400 no_json) (tg_url (asc ''123:abc''))
        (plain_payload (asc ''42'') (asc ''hi''))] \<and>
   fst (sendTGMessage (example_world first_400 no_json) (asc ''hi'') env_telegram []) = Inr ReturnsTrue"
proof -
  let ?w = "example_world first_400 no_json"
  let ?rq1 = "json_post ?w (tg_url (asc ''123:abc'')) (markdown_payload (asc ''42'') (asc ''hi''))"
  let ?rq2 = "json_post ?w (tg_url (asc ''123:abc'')) (plain_payload (asc ''42'') (asc ''hi''))"
  have c: "TG_BOT_TOKEN env_telegram = Some (asc ''123:abc'')"
      "TG_CHAT_ID env_telegram = Some (asc ''42'')" "asc ''123:abc'' \<noteq> []" "asc ''42'' \<noteq> []"
    by (simp_all add: env_telegram_def asc_def)
  have f: "w_fetch ?w [] ?rq1 = Inr (plain_response 400 [])"
    by (simp add: example_world_def first_400_def)
  have r: "\<not> ok (plain_response 400 [])" "rs_text (plain_response 400 []) = Inr []"
      "100 \<le> rs_status (plain_response 400 [])" "rs_status (plain_response 400 []) < 1000"
      "rs_status (plain_response 400 []) = 400"
    by (simp_all add: ok_def plain_response_def)
  have again: "w_fetch ?w ([] @ [Fetch ?rq1,
        Console Warn (warn_tg_retry @ message (http_error (plain_response 400 []) []))]) ?rq2
      = Inr (plain_response 200 [])"
    by (simp add: example_world_def first_400_def)
  have ok2: "ok (plain_response 200 [])"
    by (simp add: ok_def plain_response_def)
  from sendTGMessage_retries_once_on_400 [OF c f r(1-4)] r(5) again ok2
  have "requests (snd (sendTGMessage ?w (asc ''hi'') env_telegram [])) = [?rq1, ?rq2] \<and>
        fst (sendTGMessage ?w (asc ''hi'') env_telegram []) = Inr ReturnsTrue"
    by simp
  with f r(1) show ?thesis by simp
qed

text \<open>A 404, a 4xx client error, is not retried.\<close>

theorem sendTGMessage_no_retry_on_404:
  "rs_status (plain_response 404 []) = 404 \<and>
   w_fetch (example_world (answers (plain_response 404 [])) no_json) []
       (json_post (example_world (answers (plain_response 404 [])) no_json) (tg_url (asc ''123:abc''))
          (markdown_payload (asc ''42'') (asc ''hi''))) = Inr (plain_response 404 []) \<and>
   requests (snd (sendTGMessage (example_world (answers (plain_response 404 [])) no_json)
                    (asc ''hi'') env_telegram [])) =
     [json_post (example_world (answers (plain_response 404 [])) no_json) (tg_url (asc ''123:abc''))
        (markdown_payload (asc ''42'') (asc ''hi''))] \<and>
   fst (sendTGMessage (example_world (answers (plain_response 404 [])) no_json)
          (asc ''hi'') env_telegram []) = Inr ReturnsNull"
  by code_simp

section \<open>The batch loop\<close>

text \<open>One round of the loop on a record of the configuration format.\<close>

lemma account_email_well_typed:
  "well_typed a \<Longrightarrow> account_email w (Some a) = Inr (record_email a)"
  by (cases a)
     (auto simp: well_typed_def account_email_def record_email_def split: option.splits json.splits)

lemma account_email_throws_iff:
  "isl (account_email w (Some a)) \<longleftrightarrow> \<not> well_typed a"
  by (cases a)
     (auto simp: well_typed_def account_email_def split: option.splits json.splits)

lemma process_account_skip:
  "well_typed a \<Longrightarrow> \<not> complete a \<Longrightarrow>
     process_account w lg tot i (Some a) st tr =
       (Inr st, tr @ [Console Warn (warn_incomplete @ render_email (record_email a))])"
  by (auto simp: process_account_def account_email_well_typed complete_def account_password_def
        Let_def split: option.splits)

lemma process_account_complete:
  "well_typed a \<Longrightarrow> complete a \<Longrightarrow>
     \<exists>e p. record_email a = Some e \<and> get_field a (asc ''password'') = Some p \<and> e \<noteq> [] \<and>
           truthy p \<and>
           process_account w lg tot i (Some a) st tr =
             (case attempt w lg tot i e p st tr of (st1, tr1) \<Rightarrow> (Inr st1, tr1))"
  by (auto simp: process_account_def account_email_well_typed complete_def account_password_def
        Let_def split: option.splits)

text \<open>A record that is not complete never adds a line, whatever its shape.\<close>

lemma process_account_incomplete:
  "\<not> complete a \<Longrightarrow>
     (\<exists>e. process_account w lg tot i (Some a) st tr = (Inl e, tr)) \<or>
     (\<exists>tr'. process_account w lg tot i (Some a) st tr = (Inr st, tr'))"
  by (cases a)
     (auto simp: process_account_def account_email_def complete_def record_email_def
        account_password_def Let_def split: option.splits json.splits)

lemma is_success_line_simps:
  "is_success_line (line_success e)" "\<not> is_success_line (line_failure e m)"
  "\<not> is_success_line (line_exception e err)"
  by (simp_all add: is_success_line_def line_success_def line_failure_def line_exception_def
        line_ok_prefix_def line_fail_prefix_def)

lemma exception_line_marked: "includes_str (line_exception e err) exception_marker"
proof -
  have "line_exception e err =
      (line_fail_prefix @ e @ asc '' '' @ [0x767B, 0x5F55, 0x5931, 0x8D25] @ asc '' - '') @
      exception_marker @ (asc '': '' @ message err @ newline)"
    by (simp add: line_exception_def line_exc_mid_def)
  then show ?thesis
    by (simp only: includes_append_right includes_prefix)
qed

text \<open>
  The \<open>try\<close> block when \<open>totalAccounts\<close> is a number: the console line, the pause when
  the index is positive, the login, and the line of its outcome.
\<close>

lemma attempt_numeric:
  "attempt w lg (Some (JNum n)) i e p st tr =
     (case lg e p (tr @ info_event i n e # (if i > 0 then [Delay 5000] else [])) of
        (out, tr3) \<Rightarrow>
          (\<lparr>results = results st @ [outcome_line e out],
            successCount = successCount st + (if is_success_line (outcome_line e out) then 1 else 0)\<rparr>,
           tr3))"
  by (auto simp: attempt_def render_total_def to_string_def Let_def outcome_line_def info_event_def
        is_success_line_simps split: prod.splits sum.splits)

text \<open>
  The invariant of the loop over records of the configuration format: it ends normally,
  it has appended one line per complete record, in order, and it has counted the lines
  of successful logins.
\<close>

lemma loop_lines:
  "list_all well_typed xs \<Longrightarrow>
   \<exists>new tr'. process_accounts w lg (Some (JNum n)) i (map Some xs) st tr =
        (Inr \<lparr>results = results st @ new,
              successCount = successCount st + length (filter is_success_line new)\<rparr>, tr') \<and>
      list_all2 (line_of lg) (filter complete xs) new"
proof (induction xs arbitrary: i st tr)
  case Nil
  then show ?case by simp
next
  case (Cons a xs)
  then have wa: "well_typed a" and wxs: "list_all well_typed xs" by simp_all
  show ?case
  proof (cases "complete a")
    case False
    from Cons.IH [OF wxs, of "Suc i" st "tr @ [Console Warn (warn_incomplete @ render_email (record_email a))]"]
    show ?thesis using False wa by (simp add: process_account_skip)
  next
    case True
    from process_account_complete [OF wa True, of w lg "Some (JNum n)" i st tr]
    obtain e p where ep: "record_email a = Some e" "get_field a (asc ''password'') = Some p"
      and pa: "process_account w lg (Some (JNum n)) i (Some a) st tr =
             (case attempt w lg (Some (JNum n)) i e p st tr of (st1, tr1) \<Rightarrow> (Inr st1, tr1))"
      by blast
    define t where "t = tr @ info_event i n e # (if i > 0 then [Delay 5000] else [])"
    define l where "l = outcome_line e (fst (lg e p t))"
    define st1 where "st1 = \<lparr>results = results st @ [l],
            successCount = successCount st + (if is_success_line l then 1 else 0)\<rparr>"
    have step: "process_account w lg (Some (JNum n)) i (Some a) st tr = (Inr st1, snd (lg e p t))"
      by (simp add: pa attempt_numeric t_def l_def st1_def split: prod.splits)
    have lo: "line_of lg a l"
      unfolding line_of_def l_def using ep by blast
    from Cons.IH [OF wxs, of "Suc i" st1 "snd (lg e p t)"]
    obtain new tr' where rest: "process_accounts w lg (Some (JNum n)) (Suc i) (map Some xs) st1 (snd (lg e p t)) =
        (Inr \<lparr>results = results st1 @ new,
              successCount = successCount st1 + length (filter is_success_line new)\<rparr>, tr')"
      and rel: "list_all2 (line_of lg) (filter complete xs) new"
      by blast
    have f1: "results st1 = results st @ [l]"
      and f2: "successCount st1 = successCount st + (if is_success_line l then 1 else 0)"
      by (simp_all add: st1_def)
    have "process_accounts w lg (Some (JNum n)) i (map Some (a # xs)) st tr =
        (Inr \<lparr>results = results st @ (l # new),
              successCount = successCount st + length (filter is_success_line (l # new))\<rparr>, tr')"
      by (simp add: step rest f1 f2)
    moreover have "list_all2 (line_of lg) (filter complete (a # xs)) (l # new)"
      using True lo rel by simp
    ultimately show ?thesis by blast
  qed
qed

lemma loop_lines_init:
  assumes "list_all well_typed xs"
  shows "\<exists>new tr'. process_accounts w lg (Some (JNum n)) 0 (map Some xs)
             \<lparr>results = [], successCount = 0\<rparr> tr =
           (Inr \<lparr>results = new, successCount = length (filter is_success_line new)\<rparr>, tr') \<and>
         list_all2 (line_of lg) (filter complete xs) new"
  using loop_lines [OF assms, of w lg n 0 "\<lparr>results = [], successCount = 0\<rparr>" tr] by simp

text \<open>Without a complete record the loop throws or leaves the results as they were.\<close>

lemma loop_no_complete:
  "filter complete xs = [] \<Longrightarrow>
     (\<exists>e tr'. process_accounts w lg tot i (map Some xs) st tr = (Inl e, tr')) \<or>
     (\<exists>tr'. process_accounts w lg tot i (map Some xs) st tr = (Inr st, tr'))"
proof (induction xs arbitrary: i tr)
  case Nil
  then show ?case by simp
next
  case (Cons a xs)
  then have na: "\<not> complete a" and rest: "filter complete xs = []"
    by (auto split: if_splits)
  from process_account_incomplete [OF na, of w lg tot i st tr]
  show ?case
  proof
    assume "\<exists>e. process_account w lg tot i (Some a) st tr = (Inl e, tr)"
    then show ?thesis by auto
  next
    assume "\<exists>tr'. process_account w lg tot i (Some a) st tr = (Inr st, tr')"
    then obtain t1 where "process_account w lg tot i (Some a) st tr = (Inr st, t1)" by blast
    with Cons.IH [OF rest, of "Suc i" t1] show ?thesis by auto
  qed
qed

text \<open>The requests and pauses of the loop with \<open>loginKoyeb\<close>.\<close>

lemma loop_pacing:
  "list_all well_typed xs \<Longrightarrow>
     pacing (snd (process_accounts w (loginKoyeb w) (Some (JNum n)) i (map Some xs) st tr)) =
       pacing tr @ expected_pacing i xs"
proof (induction xs arbitrary: i st tr)
  case Nil
  then show ?case by simp
next
  case (Cons a xs)
  then have wa: "well_typed a" and wxs: "list_all well_typed xs" by simp_all
  show ?case
  proof (cases "complete a")
    case False
    then show ?thesis
      using wa Cons.IH [OF wxs] by (simp add: process_account_skip pacing_append)
  next
    case True
    from process_account_complete [OF wa True, of w "loginKoyeb w" "Some (JNum n)" i st tr]
    obtain e p where ep: "e \<noteq> []" "truthy p"
      and pa: "process_account w (loginKoyeb w) (Some (JNum n)) i (Some a) st tr =
             (case attempt w (loginKoyeb w) (Some (JNum n)) i e p st tr of
                (st1, tr1) \<Rightarrow> (Inr st1, tr1))"
      by blast
    define t where "t = tr @ info_event i n e # (if i > 0 then [Delay 5000] else [])"
    obtain out t3 where lg: "loginKoyeb w e p t = (out, t3)" by (cases "loginKoyeb w e p t")
    with loginKoyeb_pacing [OF ep, of w t]
    have p3: "pacing t3 = pacing t @ [Request GET loginPageUrl, Request POST loginUrl]" by simp
    have pt: "pacing t = pacing tr @ (if i > 0 then [Pause 5000] else [])"
      by (simp add: t_def pacing_append info_event_def)
    obtain st1 where step: "process_account w (loginKoyeb w) (Some (JNum n)) i (Some a) st tr =
        (Inr st1, t3)"
      using lg by (simp add: pa attempt_numeric t_def [symmetric])
    show ?thesis
      using True Cons.IH [OF wxs, of "Suc i" st1 t3]
      by (simp add: step p3 pt)
  qed
qed

text \<open>Lines 137-179 on an array that is not empty.\<close>

lemma array_elements: "map (config_at (JArr xs)) [0..<length xs] = map Some xs"
proof -
  have "map (config_at (JArr xs)) [0..<length xs] = map (\<lambda>i. Some (xs ! i)) [0..<length xs]"
    by (rule map_cong) simp_all
  also have "\<dots> = map Some (map ((!) xs) [0..<length xs])"
    by (simp only: map_map comp_def)
  also have "\<dots> = map Some xs"
    by (simp only: map_nth)
  finally show ?thesis .
qed

lemma loop_bound_array: "loop_bound w (Some (JNum (int k))) = Inr k"
  by (simp add: loop_bound_def to_number_def)

lemma summary_array:
  "summary w (Some (JNum (int k))) sc =
     Inr (summary_total @ show_nat k @ summary_success @ show_nat sc @ summary_failed @
          show_int (int k - int sc) @ newline @ newline)"
  by (simp add: summary_def render_total_def to_string_def to_number_def show_int_nat)

lemma run_accounts_array:
  assumes "xs \<noteq> []"
  shows "run_accounts w lg (JArr xs) tr =
     (case process_accounts w lg (Some (JNum (int (length xs)))) 0 (map Some xs)
             \<lparr>results = [], successCount = 0\<rparr> tr of
        (Inl e, tr1) \<Rightarrow> (Inl e, tr1)
      | (Inr st, tr1) \<Rightarrow>
          if results st = [] then (Inl (Error msg_no_results), tr1)
          else (Inr \<lparr>report_lines = results st, report_successes = successCount st,
                     tgMessage = report_title @ w_now w @ newline @ newline @
                       (summary_total @ show_nat (length xs) @ summary_success @
                        show_nat (successCount st) @ summary_failed @
                        show_int (int (length xs) - int (successCount st)) @ newline @ newline) @
                       concat (results st)\<rparr>, tr1))"
proof -
  have c: "config_length (JArr xs) = Some (JNum (int (length xs)))" by simp
  have z: "JNum (int (length xs)) \<noteq> JNum 0" using assms by simp
  show ?thesis
    unfolding run_accounts_def Let_def c
    by (simp only: truthy.simps z loop_bound_array summary_array array_elements
          option.inject simp_thms if_False sum.case not_True_eq_False)
qed

text \<open>The run on an array of records of the configuration format with a complete record.\<close>

lemma run_accounts_lines:
  assumes wt: "list_all well_typed xs" and some: "filter complete xs \<noteq> []"
  shows "\<exists>new tr'.
           run_accounts w lg (JArr xs) tr =
             (Inr \<lparr>report_lines = new, report_successes = length (filter is_success_line new),
                   tgMessage = report_title @ w_now w @ newline @ newline @
                     summary_text (length xs) (length (filter is_success_line new))
                       (length xs - length (filter is_success_line new)) @
                     concat new\<rparr>, tr') \<and>
           list_all2 (line_of lg) (filter complete xs) new \<and>
           length xs - length (filter is_success_line new) =
             length (filter (\<lambda>l. \<not> is_success_line l) new) +
             length (filter (\<lambda>a. \<not> complete a) xs)"
proof -
  from some have ne: "xs \<noteq> []" by auto
  from loop_lines_init [OF wt, of w lg "int (length xs)" tr]
  obtain new tr' where run: "process_accounts w lg (Some (JNum (int (length xs)))) 0 (map Some xs)
             \<lparr>results = [], successCount = 0\<rparr> tr =
           (Inr \<lparr>results = new, successCount = length (filter is_success_line new)\<rparr>, tr')"
    and rel: "list_all2 (line_of lg) (filter complete xs) new"
    by blast
  from rel have len: "length new = length (filter complete xs)"
    by (simp add: list_all2_lengthD)
  with some have nn: "new \<noteq> []" by auto
  define sc where "sc = length (filter is_success_line new)"
  have c1: "sc + length (filter (\<lambda>l. \<not> is_success_line l) new) = length new"
    unfolding sc_def by (rule count_split)
  have c2: "length (filter complete xs) + length (filter (\<lambda>a. \<not> complete a) xs) = length xs"
    by (rule count_split)
  have le: "sc \<le> length xs" using c1 c2 len by arith
  have diff: "length xs - sc =
      length (filter (\<lambda>l. \<not> is_success_line l) new) + length (filter (\<lambda>a. \<not> complete a) xs)"
    using c1 c2 len by arith
  have shown: "show_int (int (length xs) - int sc) = show_nat (length xs - sc)"
  proof -
    have "int (length xs) - int sc = int (length xs - sc)"
      using le by (rule of_nat_diff [symmetric])
    then show ?thesis by (simp only: show_int_nat)
  qed
  have "run_accounts w lg (JArr xs) tr =
      (Inr \<lparr>report_lines = new, report_successes = sc,
            tgMessage = report_title @ w_now w @ newline @ newline @
              summary_text (length xs) sc (length xs - sc) @ concat new\<rparr>, tr')"
    using nn by (simp add: run_accounts_array [OF ne] run sc_def [symmetric] shown summary_text_def)
  then show ?thesis
    using rel diff unfolding sc_def by blast
qed

text \<open>
  C1 (as the code has it): for every list of account records of the configuration
  format (the email, when present, is a string) with at least one complete record, that
  is one whose email is not empty after trimming and whose password is not empty, the
  run produces a report with exactly one line per complete record, in the order of the
  list, each line rendering an outcome of the login of its record; the other records
  add no line.
\<close>

theorem report_has_one_line_per_complete_record:
  assumes wt: "list_all well_typed xs" and some: "filter complete xs \<noteq> []"
  shows "\<exists>rp tr'. run_accounts w lg (JArr xs) tr = (Inr rp, tr') \<and>
           length (report_lines rp) = length (filter complete xs) \<and>
           list_all2 (line_of lg) (filter complete xs) (report_lines rp)"
proof -
  from run_accounts_lines [OF wt some, of w lg tr]
  obtain new tr' rp where run: "run_accounts w lg (JArr xs) tr = (Inr rp, tr')"
    and rp: "report_lines rp = new"
    and rel: "list_all2 (line_of lg) (filter complete xs) new"
    by force
  from rel have "length new = length (filter complete xs)"
    by (simp add: list_all2_lengthD)
  with run rp rel show ?thesis by auto
qed

theorem report_has_one_line_per_complete_record_witness:
  "list_all well_typed [account ''a@x.io'' ''pa'', account '''' ''pb'', account ''c@x.io'' ''pc''] \<and>
   filter complete [account ''a@x.io'' ''pa'', account '''' ''pb'', account ''c@x.io'' ''pc''] =
     [account ''a@x.io'' ''pa'', account ''c@x.io'' ''pc''] \<and>
   (\<exists>rp tr'. run_accounts world_200 (loginKoyeb world_200)
        (JArr [account ''a@x.io'' ''pa'', account '''' ''pb'', account ''c@x.io'' ''pc'']) []
          = (Inr rp, tr') \<and>
      length (report_lines rp) = 2 \<and>
      report_lines rp = [line_success (asc ''a@x.io''), line_success (asc ''c@x.io'')])"
proof -
  let ?xs = "[account ''a@x.io'' ''pa'', account '''' ''pb'', account ''c@x.io'' ''pc'']"
  have wt: "list_all well_typed ?xs" by code_simp
  have fc: "filter complete ?xs = [account ''a@x.io'' ''pa'', account ''c@x.io'' ''pc'']"
    by code_simp
  then have some: "filter complete ?xs \<noteq> []" by simp
  have lines: "map_sum id report_lines (fst (run_accounts world_200 (loginKoyeb world_200) (JArr ?xs) []))
      = Inr [line_success (asc ''a@x.io''), line_success (asc ''c@x.io'')]"
    by code_simp
  from report_has_one_line_per_complete_record [OF wt some, of world_200 "loginKoyeb world_200" "[]"]
  obtain rp tr' where run: "run_accounts world_200 (loginKoyeb world_200) (JArr ?xs) [] = (Inr rp, tr')"
    and len: "length (report_lines rp) = length (filter complete ?xs)"
    by blast
  from lines run have "report_lines rp = [line_success (asc ''a@x.io''), line_success (asc ''c@x.io'')]"
    by simp
  with wt fc run len show ?thesis by simp
qed

text \<open>
  A record whose email is one space and whose password is \<open>pw\<close> has an email and a
  password that are not empty; alone in the list it gives no line and no report.
\<close>

theorem blank_email_gives_no_report:
  "nonempty_credentials (account '' '' ''pw'') \<and>
   fst (run_accounts world_200 (loginKoyeb world_200) (JArr [account '' '' ''pw'']) []) =
     Inl (Error msg_no_results)"
  by code_simp

text \<open>
  A record on which line 148 throws ends the loop there: line 148 is before the \<open>try\<close>
  of line 156, so the error leaves the loop with the effects of the records before it.
\<close>

lemma account_email_ill_typed:
  "\<not> well_typed b \<Longrightarrow>
     account_email w (Some b) =
       Inl (w_type_error w (if b = JNull then ReadOfNullish (asc ''email'')
                            else NotCallable (asc ''trim'')))"
  by (cases b)
     (auto simp: well_typed_def account_email_def split: option.splits json.splits)

lemma process_account_well_typed:
  assumes "well_typed a"
  shows "\<exists>st1 tr1. process_account w lg tot i (Some a) st tr = (Inr st1, tr1)"
proof (cases "complete a")
  case True
  from process_account_complete [OF assms True, of w lg tot i st tr]
  obtain e p where pa: "process_account w lg tot i (Some a) st tr =
      (case attempt w lg tot i e p st tr of (st1, tr1) \<Rightarrow> (Inr st1, tr1))"
    by blast
  show ?thesis
    unfolding pa by (cases "attempt w lg tot i e p st tr") simp
next
  case False
  then show ?thesis using assms by (simp add: process_account_skip)
qed

lemma loop_aborts:
  "list_all well_typed pre \<Longrightarrow> \<not> well_typed b \<Longrightarrow>
     process_accounts w lg tot i (map Some (pre @ b # post)) st tr =
       (Inl (w_type_error w (if b = JNull then ReadOfNullish (asc ''email'')
                             else NotCallable (asc ''trim''))),
        snd (process_accounts w lg tot i (map Some pre) st tr))"
proof (induction pre arbitrary: i st tr)
  case Nil
  then show ?case
    by (simp add: process_account_def account_email_ill_typed)
next
  case (Cons a pre)
  then have wa: "well_typed a" and wp: "list_all well_typed pre" by simp_all
  from process_account_well_typed [OF wa, of w lg tot i st tr]
  obtain st1 tr1 where step: "process_account w lg tot i (Some a) st tr = (Inr st1, tr1)"
    by blast
  show ?case
    using Cons.IH [OF wp Cons.prems(2), of "Suc i" st1 tr1]
    by (simp add: step)
qed

text \<open>
  C2: an exception raised while one account is processed should become a failure line
  of that account, with the batch going on. The code does so for what the login throws
  (the \<open>catch\<close> of line 169, next lemma), but not for the \<open>TypeError\<close> of line 148: for
  every list in which records of the configuration format are followed by a record that
  is \<open>null\<close> or whose email is not a string, the run throws that error and returns no
  report, and its requests and pauses are those of the records before the faulty one:
  the records after it are never attempted.
\<close>

theorem ill_typed_record_aborts_the_batch:
  assumes pre: "list_all well_typed pre" and b: "\<not> well_typed b"
  shows "fst (run_accounts w (loginKoyeb w) (JArr (pre @ b # post)) tr) =
           Inl (w_type_error w (if b = JNull then ReadOfNullish (asc ''email'')
                                else NotCallable (asc ''trim''))) \<and>
         pacing (snd (run_accounts w (loginKoyeb w) (JArr (pre @ b # post)) tr)) =
           pacing tr @ expected_pacing 0 pre"
proof -
  have ne: "pre @ b # post \<noteq> []" by simp
  let ?tot = "Some (JNum (int (length (pre @ b # post))))"
  from loop_aborts [OF pre b, of w "loginKoyeb w" ?tot 0 post "\<lparr>results = [], successCount = 0\<rparr>" tr]
  have run: "run_accounts w (loginKoyeb w) (JArr (pre @ b # post)) tr =
       (Inl (w_type_error w (if b = JNull then ReadOfNullish (asc ''email'')
                             else NotCallable (asc ''trim''))),
        snd (process_accounts w (loginKoyeb w) ?tot 0 (map Some pre)
               \<lparr>results = [], successCount = 0\<rparr> tr))"
    by (simp only: run_accounts_array [OF ne] prod.case sum.case)
  from loop_pacing [OF pre, of w "int (length (pre @ b # post))" 0
         "\<lparr>results = [], successCount = 0\<rparr>" tr]
  show ?thesis by (simp add: run)
qed

theorem ill_typed_record_aborts_the_batch_witness:
  "list_all well_typed [account ''a@x.io'' ''pa''] \<and> \<not> well_typed numeric_email_record \<and>
   complete (account ''c@x.io'' ''pc'') \<and>
   fst (run_accounts world_200 (loginKoyeb world_200)
          (JArr [account ''a@x.io'' ''pa'', numeric_email_record, account ''c@x.io'' ''pc'']) []) =
     Inl (w_type_error world_200 (NotCallable (asc ''trim''))) \<and>
   pacing (snd (run_accounts world_200 (loginKoyeb world_200)
          (JArr [account ''a@x.io'' ''pa'', numeric_email_record, account ''c@x.io'' ''pc'']) [])) =
     [Request GET loginPageUrl, Request POST loginUrl]"
proof -
  have p: "list_all well_typed [account ''a@x.io'' ''pa'']" by code_simp
  have b: "\<not> well_typed numeric_email_record" by code_simp
  have n: "numeric_email_record \<noteq> JNull" by (simp add: numeric_email_record_def)
  have c: "complete (account ''c@x.io'' ''pc'')" by code_simp
  have e: "expected_pacing 0 [account ''a@x.io'' ''pa''] =
      [Request GET loginPageUrl, Request POST loginUrl]"
    by code_simp
  from ill_typed_record_aborts_the_batch [OF p b, of world_200 "[account ''c@x.io'' ''pc'']" "[]"]
       p b c n e
  show ?thesis by simp
qed

text \<open>
  The \<open>catch\<close> of line 169: for every list of account records of the configuration
  format with a complete record, and every login function, the run ends with a report
  that has one line per complete record in the order of the list; the line of a record
  whose login throws is the failure line of that record with the marker "execution
  exception", and the records after it are processed as well. (\<open>crashes\<close> tells for
  which emails the login throws.)
\<close>

lemma login_exception_is_isolated:
  assumes wt: "list_all well_typed xs" and some: "filter complete xs \<noteq> []"
    and crash: "\<And>e p t. isl (fst (lg e p t)) = crashes e"
  shows "\<exists>rp tr'. run_accounts w lg (JArr xs) tr = (Inr rp, tr') \<and>
           list_all2
             (\<lambda>a l. \<exists>e. record_email a = Some e \<and>
                (if crashes e
                 then (\<exists>err. l = line_exception e err) \<and> includes_str l exception_marker
                 else l = line_success e \<or> (\<exists>m. l = line_failure e m)))
             (filter complete xs) (report_lines rp)"
proof -
  from run_accounts_lines [OF wt some, of w lg tr]
  obtain new tr' rp where run: "run_accounts w lg (JArr xs) tr = (Inr rp, tr')"
    and rp: "report_lines rp = new"
    and rel: "list_all2 (line_of lg) (filter complete xs) new"
    by force
  have "line_of lg a l \<Longrightarrow> \<exists>e. record_email a = Some e \<and>
                (if crashes e
                 then (\<exists>err. l = line_exception e err) \<and> includes_str l exception_marker
                 else l = line_success e \<or> (\<exists>m. l = line_failure e m))" for a l
  proof -
    assume "line_of lg a l"
    then obtain e p t where e: "record_email a = Some e"
      and l: "l = outcome_line e (fst (lg e p t))"
      unfolding line_of_def by blast
    show ?thesis
    proof (cases "fst (lg e p t)")
      case (Inl err)
      with crash [of e p t] have "crashes e" by simp
      with e l Inl show ?thesis
        by (auto simp: outcome_line_def exception_line_marked)
    next
      case (Inr r)
      with crash [of e p t] have "\<not> crashes e" by simp
      with e l Inr show ?thesis
        by (cases r) (auto simp: outcome_line_def)
    qed
  qed
  with rel have "list_all2
             (\<lambda>a l. \<exists>e. record_email a = Some e \<and>
                (if crashes e
                 then (\<exists>err. l = line_exception e err) \<and> includes_str l exception_marker
                 else l = line_success e \<or> (\<exists>m. l = line_failure e m)))
             (filter complete xs) new"
    by (rule list_all2_mono)
  with run rp show ?thesis by blast
qed

lemma login_exception_is_isolated_example:
  "list_all well_typed [account ''a@x.io'' ''pa'', account ''b@x.io'' ''pb'', account ''c@x.io'' ''pc''] \<and>
   filter complete [account ''a@x.io'' ''pa'', account ''b@x.io'' ''pb'', account ''c@x.io'' ''pc''] =
     [account ''a@x.io'' ''pa'', account ''b@x.io'' ''pb'', account ''c@x.io'' ''pc''] \<and>
   (\<exists>rp tr'. run_accounts world_200 (crashing_login (asc ''b@x.io''))
        (JArr [account ''a@x.io'' ''pa'', account ''b@x.io'' ''pb'', account ''c@x.io'' ''pc'']) []
          = (Inr rp, tr') \<and>
      report_lines rp = [line_success (asc ''a@x.io''),
                         line_exception (asc ''b@x.io'') (Error (asc ''boom'')),
                         line_success (asc ''c@x.io'')] \<and>
      list_all2
        (\<lambda>a l. \<exists>e. record_email a = Some e \<and>
           (if e = asc ''b@x.io''
            then (\<exists>err. l = line_exception e err) \<and> includes_str l exception_marker
            else l = line_success e \<or> (\<exists>m. l = line_failure e m)))
        [account ''a@x.io'' ''pa'', account ''b@x.io'' ''pb'', account ''c@x.io'' ''pc'']
        (report_lines rp))"
proof -
  let ?xs = "[account ''a@x.io'' ''pa'', account ''b@x.io'' ''pb'', account ''c@x.io'' ''pc'']"
  let ?lg = "crashing_login (asc ''b@x.io'')"
  have wt: "list_all well_typed ?xs" by code_simp
  have fc: "filter complete ?xs = ?xs" by code_simp
  then have some: "filter complete ?xs \<noteq> []" by simp
  have crash: "\<And>e p t. isl (fst (?lg e p t)) = (e = asc ''b@x.io'')"
    by (simp add: crashing_login_def)
  have lines: "map_sum id report_lines (fst (run_accounts world_200 ?lg (JArr ?xs) []))
      = Inr [line_success (asc ''a@x.io''), line_exception (asc ''b@x.io'') (Error (asc ''boom'')),
             line_success (asc ''c@x.io'')]"
    by code_simp
  from login_exception_is_isolated
         [where w = world_200 and tr = "[]" and lg = "crashing_login (asc ''b@x.io'')"
            and crashes = "\<lambda>e. e = asc ''b@x.io''",
          OF wt some crash]
  obtain rp tr' where run: "run_accounts world_200 ?lg (JArr ?xs) [] = (Inr rp, tr')"
    and rel: "list_all2
        (\<lambda>a l. \<exists>e. record_email a = Some e \<and>
           (if e = asc ''b@x.io''
            then (\<exists>err. l = line_exception e err) \<and> includes_str l exception_marker
            else l = line_success e \<or> (\<exists>m. l = line_failure e m)))
        (filter complete ?xs) (report_lines rp)"
    by blast
  from lines run have l3: "report_lines rp = [line_success (asc ''a@x.io''),
        line_exception (asc ''b@x.io'') (Error (asc ''boom'')), line_success (asc ''c@x.io'')]"
    by simp
  from rel have rel': "list_all2
        (\<lambda>a l. \<exists>e. record_email a = Some e \<and>
           (if e = asc ''b@x.io''
            then (\<exists>err. l = line_exception e err) \<and> includes_str l exception_marker
            else l = line_success e \<or> (\<exists>m. l = line_failure e m)))
        ?xs (report_lines rp)"
    by (simp only: fc)
  from wt fc run l3 rel' show ?thesis by blast
qed

text \<open>
  C3: the run throws instead of producing a report when the account configuration is
  unset, when it parses to \<open>null\<close> or to the empty array, and whenever the array has
  no complete record; for records of the configuration format the error of the last case
  is the one of line 175, "no account result at all".
\<close>

theorem zero_outcomes_is_fatal:
  "(KOYEB_ACCOUNTS env = None \<longrightarrow> run_batch w lg env tr = (Inl (Error msg_env_unset), tr)) \<and>
   run_accounts w lg JNull tr = (Inl (Error msg_no_accounts), tr) \<and>
   run_accounts w lg (JArr []) tr = (Inl (Error msg_no_accounts), tr) \<and>
   (filter complete xs = [] \<longrightarrow> isl (fst (run_accounts w lg (JArr xs) tr))) \<and>
   (list_all well_typed xs \<and> xs \<noteq> [] \<and> filter complete xs = [] \<longrightarrow>
      fst (run_accounts w lg (JArr xs) tr) = Inl (Error msg_no_results))"
proof -
  have a: "KOYEB_ACCOUNTS env = None \<longrightarrow> run_batch w lg env tr = (Inl (Error msg_env_unset), tr)"
    by (simp add: run_batch_def validateEnvVariables_def unset_def)
  have b: "run_accounts w lg JNull tr = (Inl (Error msg_no_accounts), tr)"
    by (simp add: run_accounts_def)
  have c: "run_accounts w lg (JArr []) tr = (Inl (Error msg_no_accounts), tr)"
    by (simp add: run_accounts_def)
  have d: "isl (fst (run_accounts w lg (JArr xs) tr))" if none: "filter complete xs = []"
  proof (cases "xs = []")
    case True
    then show ?thesis by (simp add: c)
  next
    case False
    from loop_no_complete [OF none, of w lg "Some (JNum (int (length xs)))" 0
           "\<lparr>results = [], successCount = 0\<rparr>" tr]
    show ?thesis
      by (auto simp: run_accounts_array [OF False])
  qed
  have e: "fst (run_accounts w lg (JArr xs) tr) = Inl (Error msg_no_results)"
    if wt: "list_all well_typed xs" and ne: "xs \<noteq> []" and none: "filter complete xs = []"
  proof -
    from loop_lines_init [OF wt, of w lg "int (length xs)" tr] none
    show ?thesis
      by (auto simp: run_accounts_array [OF ne])
  qed
  from a b c d e show ?thesis by blast
qed

theorem zero_outcomes_is_fatal_witness:
  "KOYEB_ACCOUNTS env_unset = None \<and>
   run_batch world_200 (loginKoyeb world_200) env_unset [] = (Inl (Error msg_env_unset), []) \<and>
   list_all well_typed [account '''' ''pa'', account ''b@x.io'' ''''] \<and>
   filter complete [account '''' ''pa'', account ''b@x.io'' ''''] = [] \<and>
   isl (fst (run_accounts world_200 (loginKoyeb world_200)
               (JArr [account '''' ''pa'', account ''b@x.io'' '''']) [])) \<and>
   fst (run_accounts world_200 (loginKoyeb world_200)
          (JArr [account '''' ''pa'', account ''b@x.io'' '''']) []) = Inl (Error msg_no_results)"
proof -
  let ?xs = "[account '''' ''pa'', account ''b@x.io'' '''']"
  have u: "KOYEB_ACCOUNTS env_unset = None" by (simp add: env_unset_def)
  have wt: "list_all well_typed ?xs" by code_simp
  have fc: "filter complete ?xs = []" by code_simp
  have ne: "?xs \<noteq> []" by simp
  from zero_outcomes_is_fatal [of env_unset world_200 "loginKoyeb world_200" "[]" ?xs] u wt fc ne
  show ?thesis by simp
qed

text \<open>
  C7 (as the code has it): for every list of account records of the configuration
  format, the requests and pauses of the run are, record by record in the order of the
  list: nothing for a record that is skipped; for a complete record the two requests of
  its login, preceded by one pause of 5000 ms exactly when the index of the record in
  the list is positive. The pause does not depend on any answer of the network.
\<close>

theorem delay_follows_the_index:
  assumes "list_all well_typed xs"
  shows "pacing (snd (run_accounts w (loginKoyeb w) (JArr xs) tr)) =
           pacing tr @ expected_pacing 0 xs"
proof (cases "xs = []")
  case True
  then show ?thesis by (simp add: run_accounts_def)
next
  case False
  obtain r t1 where run: "process_accounts w (loginKoyeb w) (Some (JNum (int (length xs)))) 0
        (map Some xs) \<lparr>results = [], successCount = 0\<rparr> tr = (r, t1)"
    by (cases "process_accounts w (loginKoyeb w) (Some (JNum (int (length xs)))) 0
        (map Some xs) \<lparr>results = [], successCount = 0\<rparr> tr")
  with loop_pacing [OF assms, of w "int (length xs)" 0 "\<lparr>results = [], successCount = 0\<rparr>" tr]
  have "pacing t1 = pacing tr @ expected_pacing 0 xs" by simp
  moreover have "snd (run_accounts w (loginKoyeb w) (JArr xs) tr) = t1"
    by (simp add: run_accounts_array [OF False] run split: sum.splits)
  ultimately show ?thesis by simp
qed

theorem delay_follows_the_index_witness:
  "list_all well_typed [account ''a@x.io'' ''pa'', account '''' ''pb'', account ''c@x.io'' ''pc''] \<and>
   pacing (snd (run_accounts world_200 (loginKoyeb world_200)
        (JArr [account ''a@x.io'' ''pa'', account '''' ''pb'', account ''c@x.io'' ''pc'']) [])) =
     [Request GET loginPageUrl, Request POST loginUrl, Pause 5000,
      Request GET loginPageUrl, Request POST loginUrl]"
proof -
  let ?xs = "[account ''a@x.io'' ''pa'', account '''' ''pb'', account ''c@x.io'' ''pc'']"
  have wt: "list_all well_typed ?xs" by code_simp
  have ex: "expected_pacing 0 ?xs = [Request GET loginPageUrl, Request POST loginUrl, Pause 5000,
      Request GET loginPageUrl, Request POST loginUrl]"
    by code_simp
  from delay_follows_the_index [OF wt, of world_200 "[]"] ex wt
  show ?thesis by simp
qed

text \<open>
  When the first record is skipped, the only login of the run, the first one made, comes
  after a pause.
\<close>

theorem delay_before_first_login_made:
  "\<not> complete (account '''' ''pb'') \<and> complete (account ''c@x.io'' ''pc'') \<and>
   pacing (snd (run_accounts world_200 (loginKoyeb world_200)
        (JArr [account '''' ''pb'', account ''c@x.io'' ''pc'']) [])) =
     [Pause 5000, Request GET loginPageUrl, Request POST loginUrl]"
  by code_simp

text \<open>
  C9: in the report of a run over an array of account records of the configuration
  format, the summary shows the length of the array as the total, the success count,
  and their difference as the failure count. The success count is the number of lines
  of successful logins, so the failure count is the number of the other lines plus the
  number of records that were skipped.
\<close>

theorem summary_counts_skipped_as_failed:
  assumes wt: "list_all well_typed xs" and some: "filter complete xs \<noteq> []"
  shows "\<exists>rp tr'. run_accounts w lg (JArr xs) tr = (Inr rp, tr') \<and>
     tgMessage rp = report_title @ w_now w @ newline @ newline @
       summary_text (length xs) (report_successes rp) (length xs - report_successes rp) @
       concat (report_lines rp) \<and>
     report_successes rp = length (filter is_success_line (report_lines rp)) \<and>
     length xs - report_successes rp =
       length (filter (\<lambda>l. \<not> is_success_line l) (report_lines rp)) +
       length (filter (\<lambda>a. \<not> complete a) xs)"
proof -
  from run_accounts_lines [OF wt some, of w lg tr]
  obtain new tr' where
    run: "run_accounts w lg (JArr xs) tr =
             (Inr \<lparr>report_lines = new, report_successes = length (filter is_success_line new),
                   tgMessage = report_title @ w_now w @ newline @ newline @
                     summary_text (length xs) (length (filter is_success_line new))
                       (length xs - length (filter is_success_line new)) @
                     concat new\<rparr>, tr')"
    and diff: "length xs - length (filter is_success_line new) =
             length (filter (\<lambda>l. \<not> is_success_line l) new) +
             length (filter (\<lambda>a. \<not> complete a) xs)"
    by blast
  show ?thesis
    unfolding run using diff by simp
qed

theorem summary_counts_skipped_as_failed_witness:
  "list_all well_typed [account ''a@x.io'' ''pa'', account '''' ''pb''] \<and>
   filter complete [account ''a@x.io'' ''pa'', account '''' ''pb''] = [account ''a@x.io'' ''pa''] \<and>
   (\<exists>rp tr'. run_accounts world_200 (loginKoyeb world_200)
        (JArr [account ''a@x.io'' ''pa'', account '''' ''pb'']) [] = (Inr rp, tr') \<and>
      report_lines rp = [line_success (asc ''a@x.io'')] \<and>
      report_successes rp = 1 \<and>
      tgMessage rp = report_title @ w_now world_200 @ newline @ newline @
        summary_text 2 1 1 @ line_success (asc ''a@x.io''))"
proof -
  let ?xs = "[account ''a@x.io'' ''pa'', account '''' ''pb'']"
  have wt: "list_all well_typed ?xs" by code_simp
  have fc: "filter complete ?xs = [account ''a@x.io'' ''pa'']" by code_simp
  then have some: "filter complete ?xs \<noteq> []" by simp
  have lines: "map_sum id report_lines (fst (run_accounts world_200 (loginKoyeb world_200) (JArr ?xs) []))
      = Inr [line_success (asc ''a@x.io'')]"
    by code_simp
  have ok1: "is_success_line (line_success (asc ''a@x.io''))"
    by (rule is_success_line_simps)
  from summary_counts_skipped_as_failed [OF wt some, of world_200 "loginKoyeb world_200" "[]"]
  obtain rp tr' where run: "run_accounts world_200 (loginKoyeb world_200) (JArr ?xs) [] = (Inr rp, tr')"
    and msg: "tgMessage rp = report_title @ w_now world_200 @ newline @ newline @
       summary_text (length ?xs) (report_successes rp) (length ?xs - report_successes rp) @
       concat (report_lines rp)"
    and sc: "report_successes rp = length (filter is_success_line (report_lines rp))"
    by blast
  from lines run have l1: "report_lines rp = [line_success (asc ''a@x.io'')]" by simp
  with sc ok1 have s1: "report_successes rp = 1" by simp
  from msg l1 s1 have "tgMessage rp = report_title @ w_now world_200 @ newline @ newline @
        summary_text 2 1 1 @ line_success (asc ''a@x.io'')"
    by (simp add: numeral_2_eq_2)
  with wt fc run l1 s1 show ?thesis by blast
qed

section \<open>A configuration that is not an array\<close>

lemma string_elements:
  "map (config_at (JStr s)) [0..<length s] = map (\<lambda>c. Some (JStr [c])) s"
proof -
  have "map (config_at (JStr s)) [0..<length s] = map (\<lambda>i. Some (JStr [s ! i])) [0..<length s]"
    by (rule map_cong) simp_all
  also have "\<dots> = map (\<lambda>c. Some (JStr [c])) (map ((!) s) [0..<length s])"
    by (simp only: map_map comp_def)
  also have "\<dots> = map (\<lambda>c. Some (JStr [c])) s"
    by (simp only: map_nth)
  finally show ?thesis .
qed

text \<open>A string that is not empty: every code unit is visited and skipped.\<close>

lemma run_accounts_string:
  assumes "s \<noteq> []"
  shows "fst (run_accounts w lg (JStr s) tr) = Inl (Error msg_no_results) \<and>
         requests (snd (run_accounts w lg (JStr s) tr)) = requests tr"
proof -
  have skip: "process_accounts w lg tot i (map (\<lambda>c. Some (JStr [c])) u) st t =
     (Inr st, t @ map (\<lambda>c. Console Warn (warn_incomplete @ asc ''undefined'')) u)" for tot i u st t
  proof (induction u arbitrary: i t)
    case Nil
    then show ?case by simp
  next
    case (Cons c u)
    have "process_account w lg tot i (Some (JStr [c])) st t =
        (Inr st, t @ [Console Warn (warn_incomplete @ asc ''undefined'')])"
      by (simp add: process_account_def account_email_def account_password_def Let_def
            render_email_def)
    then show ?case by (simp add: Cons.IH)
  qed
  have rq: "requests (map (\<lambda>c. Console Warn (warn_incomplete @ asc ''undefined'')) u) = []"
    for u :: jsstring
    by (induction u) simp_all
  have z: "JNum (int (length s)) \<noteq> JNum 0" using assms by simp
  have t: "truthy (JStr s)" using assms by simp
  have c: "config_length (JStr s) = Some (JNum (int (length s)))" by simp
  have "run_accounts w lg (JStr s) tr =
     (Inl (Error msg_no_results),
      tr @ map (\<lambda>c. Console Warn (warn_incomplete @ asc ''undefined'')) s)"
    unfolding run_accounts_def Let_def c
    by (simp only: t z loop_bound_array string_elements skip option.inject simp_thms if_False
          if_True sum.case prod.case progress.simps)
  then show ?thesis by (simp add: requests_append rq)
qed

text \<open>
  C10 (as the code has it): when the account configuration string parses, validation
  accepts whatever value it parses to. If the value is \<open>true\<close>, a number other than
  zero or an object without a member \<open>length\<close>, the run ends in the error of line 175
  ("no account result at all") after a loop of no round: the effects are unchanged. If
  the value is \<open>null\<close>, \<open>false\<close>, \<open>0\<close> or the empty string, the run ends in the error
  of line 138 ("no valid account information"), before the loop. If it is a string that
  is not empty, the run ends in the error of line 175 after a loop that skips every code
  unit, without a request.
\<close>

theorem non_array_configuration:
  assumes cfg: "KOYEB_ACCOUNTS env = Some s" "s \<noteq> []" and parse: "w_json_parse w s = Inr v"
  shows "validateEnvVariables w env = Inr v \<and>
    (v = JBool True \<or> (\<exists>n. n \<noteq> 0 \<and> v = JNum n) \<or>
       (\<exists>kvs. v = JObj kvs \<and> map_of kvs (asc ''length'') = None) \<longrightarrow>
       run_batch w lg env tr = (Inl (Error msg_no_results), tr)) \<and>
    (v = JNull \<or> v = JBool False \<or> v = JNum 0 \<or> v = JStr [] \<longrightarrow>
       run_batch w lg env tr = (Inl (Error msg_no_accounts), tr)) \<and>
    ((\<exists>c cs. v = JStr (c # cs)) \<longrightarrow>
       fst (run_batch w lg env tr) = Inl (Error msg_no_results) \<and>
       requests (snd (run_batch w lg env tr)) = requests tr)"
proof -
  have val: "validateEnvVariables w env = Inr v"
    using cfg parse by (simp add: validateEnvVariables_def unset_def)
  then have rb: "run_batch w lg env tr = run_accounts w lg v tr"
    by (simp add: run_batch_def)
  have empty_loop: "run_accounts w lg v tr = (Inl (Error msg_no_results), tr)"
    if "truthy v" "config_length v = None"
    using that by (simp add: run_accounts_def loop_bound_def)
  have a: "run_batch w lg env tr = (Inl (Error msg_no_results), tr)"
    if "v = JBool True \<or> (\<exists>n. n \<noteq> 0 \<and> v = JNum n) \<or>
       (\<exists>kvs. v = JObj kvs \<and> map_of kvs (asc ''length'') = None)"
    unfolding rb using that by (auto intro!: empty_loop)
  have b: "run_batch w lg env tr = (Inl (Error msg_no_accounts), tr)"
    if "v = JNull \<or> v = JBool False \<or> v = JNum 0 \<or> v = JStr []"
    unfolding rb using that by (auto simp: run_accounts_def)
  have c: "fst (run_batch w lg env tr) = Inl (Error msg_no_results) \<and>
       requests (snd (run_batch w lg env tr)) = requests tr"
    if "\<exists>c cs. v = JStr (c # cs)"
    unfolding rb using that run_accounts_string by auto
  from val a b c show ?thesis by blast
qed

theorem non_array_configuration_witness:
  "KOYEB_ACCOUNTS (env_accounts (asc ''true'')) = Some (asc ''true'') \<and>
   w_json_parse (parsed_world (JBool True)) (asc ''true'') = Inr (JBool True) \<and>
   validateEnvVariables (parsed_world (JBool True)) (env_accounts (asc ''true'')) = Inr (JBool True) \<and>
   run_batch (parsed_world (JBool True)) (loginKoyeb (parsed_world (JBool True)))
       (env_accounts (asc ''true'')) [] = (Inl (Error msg_no_results), []) \<and>
   KOYEB_ACCOUNTS (env_accounts (asc ''null'')) = Some (asc ''null'') \<and>
   w_json_parse (parsed_world JNull) (asc ''null'') = Inr JNull \<and>
   run_batch (parsed_world JNull) (loginKoyeb (parsed_world JNull))
       (env_accounts (asc ''null'')) [] = (Inl (Error msg_no_accounts), [])"
proof -
  have c: "KOYEB_ACCOUNTS (env_accounts (asc ''true'')) = Some (asc ''true'')" "asc ''true'' \<noteq> []"
    and d: "KOYEB_ACCOUNTS (env_accounts (asc ''null'')) = Some (asc ''null'')" "asc ''null'' \<noteq> []"
    by (simp_all add: env_accounts_def asc_def)
  have p: "w_json_parse (parsed_world v) s = Inr v" for v s
    by (simp add: parsed_world_def example_world_def parses_as_def)
  from non_array_configuration [OF c p, of "JBool True" "loginKoyeb (parsed_world (JBool True))" "[]"]
       non_array_configuration [OF d p, of JNull "loginKoyeb (parsed_world JNull)" "[]"]
       c d p [of "JBool True"] p [of JNull]
  show ?thesis by simp
qed

text \<open>
  The text \<open>null\<close> is valid JSON and not an array: the run ends in the error of line
  138, not the one of line 175. An object with the members \<open>length\<close> and \<open>0\<close> is not
  an array either, and the run ends with a report.
\<close>

theorem null_and_array_like_configuration:
  "validateEnvVariables (parsed_world JNull) (env_accounts (asc ''null'')) = Inr JNull \<and>
   run_batch (parsed_world JNull) (loginKoyeb (parsed_world JNull)) (env_accounts (asc ''null'')) []
     = (Inl (Error msg_no_accounts), []) \<and>
   msg_no_accounts \<noteq> msg_no_results \<and>
   validateEnvVariables
     (parsed_world (JObj [(asc ''length'', JNum 1), (asc ''0'', account ''a@x.io'' ''pa'')]))
     (env_accounts (asc ''{...}''))
     = Inr (JObj [(asc ''length'', JNum 1), (asc ''0'', account ''a@x.io'' ''pa'')]) \<and>
   map_sum id report_lines
     (fst (run_batch
        (parsed_world (JObj [(asc ''length'', JNum 1), (asc ''0'', account ''a@x.io'' ''pa'')]))
        (loginKoyeb
           (parsed_world (JObj [(asc ''length'', JNum 1), (asc ''0'', account ''a@x.io'' ''pa'')])))
        (env_accounts (asc ''{...}'')) []))
     = Inr [line_success (asc ''a@x.io'')]"
  by code_simp

section \<open>The entry point\<close>

text \<open>
  Whatever the run throws is caught at line 184 and sent as a message, and the notifier
  does not throw: the handler always completes.
\<close>

lemma sendTGMessage_returns: "\<exists>r tr'. sendTGMessage w msg env tr = (Inr r, tr')"
  by (auto simp: sendTGMessage_def Let_def split: option.splits prod.splits sum.splits)

lemma report_failure_completes: "\<exists>tr'. report_failure w env e tr = (Inr (), tr')"
proof -
  from sendTGMessage_returns [of w "msg_run_failed @ message e" env
         "tr @ [Console Err (msg_run_failed @ message e)]"]
  show ?thesis by (auto simp: report_failure_def Let_def)
qed

lemma scheduledEventHandler_completes: "\<exists>tr'. scheduledEventHandler w env tr = (Inr (), tr')"
proof (cases "run_batch w (loginKoyeb w) env tr")
  case (Pair r tr1)
  show ?thesis
  proof (cases r)
    case (Inl e)
    with Pair report_failure_completes [of w env e tr1] show ?thesis
      by (simp add: scheduledEventHandler_def)
  next
    case (Inr rp)
    from sendTGMessage_returns [of w "tgMessage rp" env "tr1 @ [Console Log (tgMessage rp)]"]
    obtain x tr2 where "sendTGMessage w (tgMessage rp) env (tr1 @ [Console Log (tgMessage rp)]) =
        (Inr x, tr2)"
      by blast
    with Pair Inr show ?thesis
      by (simp add: scheduledEventHandler_def)
  qed
qed

end
